theory Spec2Isabelle
  imports Complex_Main "HOL-Library.AList"
begin

section \<open>Numbers\<close>

text \<open>
  The analyzer computes on pandas columns of dtype float64. A cell is modelled as an exact
  real number or one of the three special values of the floating-point format: the two
  infinities and NaN, which pandas also uses as the marker of a missing value. Rounding,
  overflow and the sign of zero are not modelled: a finite result is the exact real result,
  and zero behaves as positive zero.
\<close>

datatype fl = Fin real | PInf | NInf | NaN

fun isnan :: "fl \<Rightarrow> bool" where
  "isnan NaN = True"
| "isnan _ = False"

fun isinf :: "fl \<Rightarrow> bool" where
  "isinf PInf = True"
| "isinf NInf = True"
| "isinf _ = False"

fun fneg :: "fl \<Rightarrow> fl" where
  "fneg (Fin x) = Fin (- x)"
| "fneg PInf = NInf"
| "fneg NInf = PInf"
| "fneg NaN = NaN"

fun fadd :: "fl \<Rightarrow> fl \<Rightarrow> fl" where
  "fadd (Fin x) (Fin y) = Fin (x + y)"
| "fadd (Fin x) PInf = PInf"
| "fadd (Fin x) NInf = NInf"
| "fadd PInf (Fin y) = PInf"
| "fadd NInf (Fin y) = NInf"
| "fadd PInf PInf = PInf"
| "fadd NInf NInf = NInf"
| "fadd PInf NInf = NaN"
| "fadd NInf PInf = NaN"
| "fadd NaN y = NaN"
| "fadd x NaN = NaN"

definition fsub :: "fl \<Rightarrow> fl \<Rightarrow> fl" where
  "fsub x y = fadd x (fneg y)"

text \<open>The infinity that has the sign of a real number; NaN for zero.\<close>

definition signed_inf :: "real \<Rightarrow> fl" where
  "signed_inf x = (if 0 < x then PInf else if x < 0 then NInf else NaN)"

fun fmul :: "fl \<Rightarrow> fl \<Rightarrow> fl" where
  "fmul (Fin x) (Fin y) = Fin (x * y)"
| "fmul (Fin x) PInf = signed_inf x"
| "fmul (Fin x) NInf = signed_inf (- x)"
| "fmul PInf (Fin y) = signed_inf y"
| "fmul NInf (Fin y) = signed_inf (- y)"
| "fmul PInf PInf = PInf"
| "fmul NInf NInf = PInf"
| "fmul PInf NInf = NInf"
| "fmul NInf PInf = NInf"
| "fmul NaN y = NaN"
| "fmul x NaN = NaN"

text \<open>
  Division of float64 values never raises: a non-zero number over zero is an infinity,
  zero over zero and infinity over infinity are NaN.
\<close>

fun fdiv :: "fl \<Rightarrow> fl \<Rightarrow> fl" where
  "fdiv (Fin x) (Fin y) = (if y \<noteq> 0 then Fin (x / y) else signed_inf x)"
| "fdiv (Fin x) PInf = Fin 0"
| "fdiv (Fin x) NInf = Fin 0"
| "fdiv PInf (Fin y) = (if 0 \<le> y then PInf else NInf)"
| "fdiv NInf (Fin y) = (if 0 \<le> y then NInf else PInf)"
| "fdiv PInf PInf = NaN"
| "fdiv NInf NInf = NaN"
| "fdiv PInf NInf = NaN"
| "fdiv NInf PInf = NaN"
| "fdiv NaN y = NaN"
| "fdiv x NaN = NaN"

fun fsqrt :: "fl \<Rightarrow> fl" where
  "fsqrt (Fin x) = (if 0 \<le> x then Fin (sqrt x) else NaN)"
| "fsqrt PInf = PInf"
| "fsqrt NInf = NaN"
| "fsqrt NaN = NaN"

text \<open>Comparison: every comparison with NaN is false.\<close>

fun fle :: "fl \<Rightarrow> fl \<Rightarrow> bool" where
  "fle (Fin x) (Fin y) = (x \<le> y)"
| "fle (Fin x) PInf = True"
| "fle (Fin x) NInf = False"
| "fle PInf (Fin y) = False"
| "fle NInf (Fin y) = True"
| "fle PInf PInf = True"
| "fle NInf NInf = True"
| "fle PInf NInf = False"
| "fle NInf PInf = True"
| "fle NaN y = False"
| "fle x NaN = False"

definition fmax :: "fl \<Rightarrow> fl \<Rightarrow> fl" where
  "fmax x y = (if fle x y then y else x)"

definition fmin :: "fl \<Rightarrow> fl \<Rightarrow> fl" where
  "fmin x y = (if fle x y then x else y)"

fun fsum :: "fl list \<Rightarrow> fl" where
  "fsum [] = Fin 0"
| "fsum (x # xs) = fadd x (fsum xs)"

section \<open>Series operations of the library\<close>

text \<open>
  The pandas operations the analyzer calls, with the defaults the source relies on
  (\<^verbatim>\<open>skipna=True\<close>, \<^verbatim>\<open>ddof=1\<close>, \<^verbatim>\<open>min_periods=window\<close>). The source fills with
  \<^verbatim>\<open>fillna(method='ffill')\<close>, so it runs on pandas before 3.0, where
  \<^verbatim>\<open>pct_change\<close> pads missing values forward before it divides.
\<close>

text \<open>\<^verbatim>\<open>ffill\<close>: a missing cell takes the last valid value before it; leading gaps stay.\<close>

fun ffill_from :: "('a \<Rightarrow> bool) \<Rightarrow> 'a option \<Rightarrow> 'a list \<Rightarrow> 'a list" where
  "ffill_from na prev [] = []"
| "ffill_from na prev (x # xs) =
     (if na x then (case prev of None \<Rightarrow> x | Some p \<Rightarrow> p) # ffill_from na prev xs
      else x # ffill_from na (Some x) xs)"

definition ffill :: "('a \<Rightarrow> bool) \<Rightarrow> 'a list \<Rightarrow> 'a list" where
  "ffill na xs = ffill_from na None xs"

text \<open>\<^verbatim>\<open>shift(1)\<close>: every value moves one row down, the first row becomes NaN.\<close>

definition shift :: "fl list \<Rightarrow> fl list" where
  "shift xs = take (length xs) (NaN # xs)"

text \<open>\<^verbatim>\<open>pct_change()\<close>: \<^verbatim>\<open>data = ffill(self); data / data.shift(1) - 1\<close>.\<close>

definition pct_change :: "fl list \<Rightarrow> fl list" where
  "pct_change xs =
     (let d = ffill isnan xs
      in map (\<lambda>(a, b). fsub (fdiv a b) (Fin 1)) (zip d (shift d)))"

definition valid :: "fl list \<Rightarrow> fl list" where
  "valid xs = filter (\<lambda>x. \<not> isnan x) xs"

text \<open>\<^verbatim>\<open>mean()\<close>: the sum of the valid values over their count, NaN when there is none.\<close>

definition mean :: "fl list \<Rightarrow> fl" where
  "mean xs =
     (let vs = valid xs
      in if vs = [] then NaN else fdiv (fsum vs) (Fin (real (length vs))))"

text \<open>
  \<^verbatim>\<open>std()\<close>: the sample standard deviation of the valid values (two passes, divisor
  \<open>count - 1\<close>), NaN when fewer than two values are valid.
\<close>

definition var :: "fl list \<Rightarrow> fl" where
  "var xs =
     (let vs = valid xs; n = length vs
      in if n \<le> 1 then NaN
         else let avg = fdiv (fsum vs) (Fin (real n));
                  sqr = map (\<lambda>x. fmul (fsub avg x) (fsub avg x)) vs
              in fdiv (fsum sqr) (Fin (real (n - 1))))"

definition std :: "fl list \<Rightarrow> fl" where
  "std xs = fsqrt (var xs)"

text \<open>
  \<^verbatim>\<open>cumprod()\<close> and \<^verbatim>\<open>cummax()\<close>: a NaN row stays NaN and is skipped by the running
  product (which starts at 1) and the running maximum (which starts at minus infinity).
\<close>

fun cumprod_from :: "fl \<Rightarrow> fl list \<Rightarrow> fl list" where
  "cumprod_from acc [] = []"
| "cumprod_from acc (x # xs) =
     (if isnan x then NaN # cumprod_from acc xs
      else fmul acc x # cumprod_from (fmul acc x) xs)"

definition cumprod :: "fl list \<Rightarrow> fl list" where
  "cumprod xs = cumprod_from (Fin 1) xs"

fun cummax_from :: "fl \<Rightarrow> fl list \<Rightarrow> fl list" where
  "cummax_from acc [] = []"
| "cummax_from acc (x # xs) =
     (if isnan x then NaN # cummax_from acc xs
      else fmax acc x # cummax_from (fmax acc x) xs)"

definition cummax :: "fl list \<Rightarrow> fl list" where
  "cummax xs = cummax_from NInf xs"

text \<open>\<^verbatim>\<open>min()\<close>: the least valid value, NaN when there is none.\<close>

definition nanmin :: "fl list \<Rightarrow> fl" where
  "nanmin xs = (case valid xs of [] \<Rightarrow> NaN | v # vs \<Rightarrow> foldl fmin v vs)"

text \<open>
  \<^verbatim>\<open>rolling(window=w).mean()\<close>: infinities are first turned into NaN; row \<open>i\<close> is the
  mean of the valid values among rows \<open>i - w + 1 .. i\<close> when at least \<open>w\<close> of them (and at
  least one) are valid, NaN otherwise.
\<close>

definition inf_to_nan :: "fl \<Rightarrow> fl" where
  "inf_to_nan x = (if isinf x then NaN else x)"

definition window_at :: "nat \<Rightarrow> fl list \<Rightarrow> nat \<Rightarrow> fl list" where
  "window_at w xs i = drop (Suc i - w) (take (Suc i) xs)"

definition rolling_row :: "nat \<Rightarrow> fl list \<Rightarrow> nat \<Rightarrow> fl" where
  "rolling_row w ys i =
     (let vs = valid (window_at w ys i)
      in if w \<le> length vs \<and> vs \<noteq> [] then fdiv (fsum vs) (Fin (real (length vs))) else NaN)"

definition rolling_mean :: "nat \<Rightarrow> fl list \<Rightarrow> fl list" where
  "rolling_mean w xs = (let ys = map inf_to_nan xs in map (rolling_row w ys) [0..<length ys])"

section \<open>Frames\<close>

text \<open>
  A DataFrame is its row index and its columns in order. A column has a dtype: numeric
  (float64) or datetime64; a missing datetime is NaT. The index is either the default
  integer index (its labels keep their gaps after rows are dropped) or a column that
  \<^verbatim>\<open>set_index\<close> moved there, with its name.
\<close>

datatype error = KeyError | TypeError | ValueError | DataError

datatype column = Numeric "fl list" | Stamps "int option list"

datatype index = RangeIx "nat list" | NamedIx string column

record frame =
  ix :: index
  cols :: "(string \<times> column) list"

text \<open>\<^verbatim>\<open>df[name]\<close> raises KeyError when there is no such column.\<close>

definition get_col :: "frame \<Rightarrow> string \<Rightarrow> error + column" where
  "get_col df name = (case map_of (cols df) name of None \<Rightarrow> Inl KeyError | Some c \<Rightarrow> Inr c)"

text \<open>
  \<^verbatim>\<open>df[name] = values\<close> replaces the column of that name where it stands, or appends a
  new last column.
\<close>

definition set_col :: "string \<Rightarrow> column \<Rightarrow> frame \<Rightarrow> frame" where
  "set_col name c df = df\<lparr>cols := AList.update name c (cols df)\<rparr>"

fun col_length :: "column \<Rightarrow> nat" where
  "col_length (Numeric xs) = length xs"
| "col_length (Stamps ds) = length ds"

text \<open>Arithmetic on a datetime column raises TypeError.\<close>

fun numeric :: "column \<Rightarrow> error + fl list" where
  "numeric (Numeric xs) = Inr xs"
| "numeric (Stamps ds) = Inl TypeError"

definition close_prices :: "frame \<Rightarrow> error + fl list" where
  "close_prices df = (case get_col df ''Close'' of Inl e \<Rightarrow> Inl e | Inr c \<Rightarrow> numeric c)"

fun missing_at :: "column \<Rightarrow> nat \<Rightarrow> bool" where
  "missing_at (Numeric xs) i = (i < length xs \<and> isnan (xs ! i))"
| "missing_at (Stamps ds) i = (i < length ds \<and> ds ! i = None)"

fun ffill_col :: "column \<Rightarrow> column" where
  "ffill_col (Numeric xs) = Numeric (ffill isnan xs)"
| "ffill_col (Stamps ds) = Stamps (ffill (\<lambda>d. d = None) ds)"

text \<open>The rows of a list whose position satisfies a predicate.\<close>

definition select_rows :: "(nat \<Rightarrow> bool) \<Rightarrow> 'a list \<Rightarrow> 'a list" where
  "select_rows keep xs = map snd (filter (\<lambda>(i, x). keep i) (zip [0..<length xs] xs))"

fun select_col :: "(nat \<Rightarrow> bool) \<Rightarrow> column \<Rightarrow> column" where
  "select_col keep (Numeric xs) = Numeric (select_rows keep xs)"
| "select_col keep (Stamps ds) = Stamps (select_rows keep ds)"

fun select_ix :: "(nat \<Rightarrow> bool) \<Rightarrow> index \<Rightarrow> index" where
  "select_ix keep (RangeIx ls) = RangeIx (select_rows keep ls)"
| "select_ix keep (NamedIx n c) = NamedIx n (select_col keep c)"

text \<open>\<^verbatim>\<open>df.fillna(method='ffill')\<close> fills every column; the index is not touched.\<close>

definition fillna_ffill :: "frame \<Rightarrow> frame" where
  "fillna_ffill df = df\<lparr>cols := map (\<lambda>(n, c). (n, ffill_col c)) (cols df)\<rparr>"

text \<open>\<^verbatim>\<open>df.dropna()\<close> keeps the rows in which no column has a missing value.\<close>

definition complete_row :: "(string \<times> column) list \<Rightarrow> nat \<Rightarrow> bool" where
  "complete_row cs i = list_all (\<lambda>(n, c). \<not> missing_at c i) cs"

definition dropna :: "frame \<Rightarrow> frame" where
  "dropna df =
     \<lparr>ix = select_ix (complete_row (cols df)) (ix df),
      cols = map (\<lambda>(n, c). (n, select_col (complete_row (cols df)) c)) (cols df)\<rparr>"

text \<open>A column, and a frame, in which no value is missing.\<close>

fun col_complete :: "column \<Rightarrow> bool" where
  "col_complete (Numeric xs) = list_all (\<lambda>x. \<not> isnan x) xs"
| "col_complete (Stamps ds) = list_all (\<lambda>d. d \<noteq> None) ds"

definition no_gaps :: "frame \<Rightarrow> bool" where
  "no_gaps df = list_all (\<lambda>(n, c). col_complete c) (cols df)"

fun is_numeric :: "error + column \<Rightarrow> bool" where
  "is_numeric (Inr (Numeric xs)) = True"
| "is_numeric _ = False"

text \<open>
  \<^verbatim>\<open>pd.to_datetime\<close> returns a datetime column as it is. What it makes of a number
  (or that it refuses it) is the library's business: \<open>conv\<close> stands for it.
\<close>

fun collect :: "(error + 'a) list \<Rightarrow> error + 'a list" where
  "collect [] = Inr []"
| "collect (Inl e # rs) = Inl e"
| "collect (Inr x # rs) = (case collect rs of Inl e \<Rightarrow> Inl e | Inr xs \<Rightarrow> Inr (x # xs))"

fun to_datetime :: "(fl \<Rightarrow> error + int option) \<Rightarrow> column \<Rightarrow> error + column" where
  "to_datetime conv (Stamps ds) = Inr (Stamps ds)"
| "to_datetime conv (Numeric xs) =
     (case collect (map conv xs) of Inl e \<Rightarrow> Inl e | Inr ds \<Rightarrow> Inr (Stamps ds))"

text \<open>
  \<^verbatim>\<open>df.set_index(name, inplace=True)\<close> moves the column into the index and drops the old
  index; \<^verbatim>\<open>df.reset_index(inplace=True)\<close> puts the index back as the first column and
  numbers the rows afresh. The unnamed default index goes back under the name
  \<^verbatim>\<open>index\<close>, or \<^verbatim>\<open>level_0\<close> when there is a column \<^verbatim>\<open>index\<close> already; a name that is
  taken raises ValueError.
\<close>

definition set_index :: "string \<Rightarrow> frame \<Rightarrow> error + frame" where
  "set_index name df =
     (case map_of (cols df) name of
        None \<Rightarrow> Inl KeyError
      | Some c \<Rightarrow> Inr \<lparr>ix = NamedIx name c, cols = AList.delete name (cols df)\<rparr>)"

fun index_column :: "string list \<Rightarrow> index \<Rightarrow> string \<times> column" where
  "index_column names (RangeIx ls) =
     (if ''index'' \<in> set names then ''level_0'' else ''index'',
      Numeric (map (\<lambda>l. Fin (real l)) ls))"
| "index_column names (NamedIx n c) = (n, c)"

definition reset_index :: "frame \<Rightarrow> error + frame" where
  "reset_index df =
     (let (n, c) = index_column (map fst (cols df)) (ix df)
      in if n \<in> set (map fst (cols df)) then Inl ValueError
         else Inr \<lparr>ix = RangeIx [0..<col_length c], cols = (n, c) # cols df\<rparr>)"

section \<open>The analyzer\<close>

text \<open>
  \<^verbatim>\<open>self.data\<close> is a dictionary from symbol to frame, read in insertion order; its
  keys are distinct. Every operation of \<^verbatim>\<open>FinancialAnalyzer\<close> has the same shape:
  \<^verbatim>\<open>
  result = {}
  for symbol, df in self.data.items():
      try:
          <body: works on df in place, may store result[symbol]>
      except Exception as e:
          logging.error(...)
  \<close>
  A run of the body on one frame is a \<open>step\<close>: the frame as the body leaves it, the value
  it stored in the result dictionary (if it got that far) and the exception it raised (if
  any). The loop threads the result dictionary and the error log through the symbols.
\<close>

type_synonym analyzer = "(string \<times> frame) list"

record 'a step =
  frame_after :: frame
  stored :: "'a option"
  raised :: "error option"

record 'a outcome =
  new_data :: analyzer
  result :: "string \<rightharpoonup> 'a"
  errors :: "(string \<times> error) list"

definition raise :: "frame \<Rightarrow> error \<Rightarrow> 'a step" where
  "raise df e = \<lparr>frame_after = df, stored = None, raised = Some e\<rparr>"

definition finish :: "frame \<Rightarrow> 'a option \<Rightarrow> 'a step" where
  "finish df v = \<lparr>frame_after = df, stored = v, raised = None\<rparr>"

fun for_each_symbol ::
  "(string \<Rightarrow> frame \<Rightarrow> 'a step) \<Rightarrow> (string \<rightharpoonup> 'a) \<Rightarrow> (string \<times> error) list \<Rightarrow> analyzer
    \<Rightarrow> 'a outcome" where
  "for_each_symbol body res lg [] = \<lparr>new_data = [], result = res, errors = lg\<rparr>"
| "for_each_symbol body res lg ((symbol, df) # rest) =
     (let st = body symbol df;
          res' = (case stored st of None \<Rightarrow> res | Some v \<Rightarrow> res(symbol \<mapsto> v));
          lg' = (case raised st of None \<Rightarrow> lg | Some e \<Rightarrow> lg @ [(symbol, e)]);
          out = for_each_symbol body res' lg' rest
      in out\<lparr>new_data := (symbol, frame_after st) # new_data out\<rparr>)"

definition run :: "(string \<Rightarrow> frame \<Rightarrow> 'a step) \<Rightarrow> analyzer \<Rightarrow> 'a outcome" where
  "run body data = for_each_symbol body Map.empty [] data"

subsection \<open>clean_data\<close>

definition clean_one :: "(fl \<Rightarrow> error + int option) \<Rightarrow> frame \<Rightarrow> unit step" where
  "clean_one conv df =
     (case get_col df ''Date'' of
        Inl e \<Rightarrow> raise df e
      | Inr d \<Rightarrow>
          (case to_datetime conv d of
             Inl e \<Rightarrow> raise df e
           | Inr d' \<Rightarrow> finish (dropna (fillna_ffill (set_col ''Date'' d' df))) None))"

definition clean_data :: "(fl \<Rightarrow> error + int option) \<Rightarrow> analyzer \<Rightarrow> analyzer" where
  "clean_data conv data = new_data (run (\<lambda>symbol. clean_one conv) data)"

subsection \<open>calculate_volatility\<close>

definition volatility_one :: "frame \<Rightarrow> fl step" where
  "volatility_one df =
     (case close_prices df of
        Inl e \<Rightarrow> raise df e
      | Inr cs \<Rightarrow>
          (let r = pct_change cs
           in finish (set_col ''Daily Return'' (Numeric r) df) (Some (std r))))"

definition calculate_volatility :: "analyzer \<Rightarrow> fl outcome" where
  "calculate_volatility data = run (\<lambda>symbol. volatility_one) data"

subsection \<open>plot_cumulative_returns\<close>

text \<open>\<^verbatim>\<open>(1 + returns).cumprod() - 1\<close>\<close>

definition cumulative_return :: "fl list \<Rightarrow> fl list" where
  "cumulative_return r = map (\<lambda>x. fsub x (Fin 1)) (cumprod (map (fadd (Fin 1)) r))"

text \<open>
  The drawing is matplotlib's: \<open>figure\<close> says whether \<^verbatim>\<open>plt.figure\<close> raises, \<open>draw\<close>
  whether the calls from \<^verbatim>\<open>plt.plot\<close> on do.
\<close>

definition plot_cumulative_returns_one ::
  "(string \<Rightarrow> error option) \<Rightarrow> (string \<Rightarrow> column \<Rightarrow> fl list \<Rightarrow> error option) \<Rightarrow> string
    \<Rightarrow> frame \<Rightarrow> unit step" where
  "plot_cumulative_returns_one figure draw symbol df =
     (case close_prices df of
        Inl e \<Rightarrow> raise df e
      | Inr cs \<Rightarrow>
          (let r = pct_change cs;
               cum = cumulative_return r;
               df' = set_col ''Cumulative Return'' (Numeric cum)
                       (set_col ''Daily Return'' (Numeric r) df)
           in case figure symbol of
                Some e \<Rightarrow> raise df' e
              | None \<Rightarrow>
                  (case get_col df' ''Date'' of
                     Inl e \<Rightarrow> raise df' e
                   | Inr d \<Rightarrow> \<lparr>frame_after = df', stored = None, raised = draw symbol d cum\<rparr>)))"

definition plot_cumulative_returns ::
  "(string \<Rightarrow> error option) \<Rightarrow> (string \<Rightarrow> column \<Rightarrow> fl list \<Rightarrow> error option) \<Rightarrow> analyzer
    \<Rightarrow> unit outcome" where
  "plot_cumulative_returns figure draw data = run (plot_cumulative_returns_one figure draw) data"

subsection \<open>calculate_moving_average\<close>

text \<open>The column is named by the f-string \<^verbatim>\<open>f'{window}-Day MA'\<close>.\<close>

fun decimal :: "nat \<Rightarrow> string" where
  "decimal n =
     (if n < 10 then [''0123456789'' ! n]
      else decimal (n div 10) @ [''0123456789'' ! (n mod 10)])"

definition ma_name :: "nat \<Rightarrow> string" where
  "ma_name w = decimal w @ ''-Day MA''"

text \<open>
  \<^verbatim>\<open>rolling(window=window)\<close> raises ValueError for a negative window, and its mean
  refuses a datetime column.
\<close>

definition moving_average_one :: "int \<Rightarrow> frame \<Rightarrow> unit step" where
  "moving_average_one window df =
     (case get_col df ''Close'' of
        Inl e \<Rightarrow> raise df e
      | Inr c \<Rightarrow>
          if window < 0 then raise df ValueError
          else (case c of
                  Stamps ds \<Rightarrow> raise df DataError
                | Numeric cs \<Rightarrow>
                    finish (set_col (ma_name (nat window)) (Numeric (rolling_mean (nat window) cs)) df)
                      None))"

definition calculate_moving_average :: "int \<Rightarrow> analyzer \<Rightarrow> analyzer" where
  "calculate_moving_average window data = new_data (run (\<lambda>symbol. moving_average_one window) data)"

subsection \<open>calculate_sharpe_ratio\<close>

definition sharpe_one :: "frame \<Rightarrow> fl step" where
  "sharpe_one df =
     (case close_prices df of
        Inl e \<Rightarrow> raise df e
      | Inr cs \<Rightarrow>
          (let r = pct_change cs;
               sharpe_ratio = fmul (fdiv (mean r) (std r)) (Fin (sqrt 252))
           in finish (set_col ''Daily Return'' (Numeric r) df) (Some sharpe_ratio)))"

definition calculate_sharpe_ratio :: "analyzer \<Rightarrow> fl outcome" where
  "calculate_sharpe_ratio data = run (\<lambda>symbol. sharpe_one) data"

subsection \<open>decompose_trends\<close>

text \<open>
  \<^verbatim>\<open>seasonal_decompose(df['Close'], model='multiplicative', period=252)\<close> is statsmodels'
  and the plot is matplotlib's: \<open>decomp\<close> gives the decomposition of a series (its index and
  its values) or the exception it raises, \<open>draw\<close> says whether plotting raises.
\<close>

definition decompose_one ::
  "(index \<Rightarrow> column \<Rightarrow> error + 'r) \<Rightarrow> (string \<Rightarrow> 'r \<Rightarrow> error option) \<Rightarrow> string \<Rightarrow> frame
    \<Rightarrow> 'r step" where
  "decompose_one decomp draw symbol df =
     (case set_index ''Date'' df of
        Inl e \<Rightarrow> raise df e
      | Inr df1 \<Rightarrow>
          (case get_col df1 ''Close'' of
             Inl e \<Rightarrow> raise df1 e
           | Inr c \<Rightarrow>
               (case decomp (ix df1) c of
                  Inl e \<Rightarrow> raise df1 e
                | Inr decomposition \<Rightarrow>
                    (case draw symbol decomposition of
                       Some e \<Rightarrow> raise df1 e
                     | None \<Rightarrow>
                         (case reset_index df1 of
                            Inl e \<Rightarrow>
                              \<lparr>frame_after = df1, stored = Some decomposition, raised = Some e\<rparr>
                          | Inr df2 \<Rightarrow> finish df2 (Some decomposition))))))"

definition decompose_trends ::
  "(index \<Rightarrow> column \<Rightarrow> error + 'r) \<Rightarrow> (string \<Rightarrow> 'r \<Rightarrow> error option) \<Rightarrow> analyzer
    \<Rightarrow> 'r outcome" where
  "decompose_trends decomp draw data = run (decompose_one decomp draw) data"

subsection \<open>calculate_max_drawdown\<close>

definition peak :: "fl list \<Rightarrow> fl list" where
  "peak cum = cummax cum"

definition drawdown :: "fl list \<Rightarrow> fl list" where
  "drawdown cum = map (\<lambda>(c, p). fsub c p) (zip cum (peak cum))"

definition max_drawdown_one :: "frame \<Rightarrow> fl step" where
  "max_drawdown_one df =
     (case close_prices df of
        Inl e \<Rightarrow> raise df e
      | Inr cs \<Rightarrow>
          (let cum = cumulative_return (pct_change cs);
               df1 = set_col ''Cumulative Return'' (Numeric cum) df;
               df2 = set_col ''Peak'' (Numeric (peak cum)) df1;
               df3 = set_col ''Drawdown'' (Numeric (drawdown cum)) df2;
               max_drawdown = nanmin (drawdown cum)
           in finish df3 (Some max_drawdown)))"

definition calculate_max_drawdown :: "analyzer \<Rightarrow> fl outcome" where
  "calculate_max_drawdown data = run (\<lambda>symbol. max_drawdown_one) data"

section \<open>Price series\<close>

text \<open>
  A price series as the provider delivers it: per row a close price, a finite number, or
  nothing. In a frame it is the numeric column \<^verbatim>\<open>Close\<close>, with NaN for a missing price.
\<close>

definition closes :: "real option list \<Rightarrow> fl list" where
  "closes ps = map (\<lambda>p. case p of None \<Rightarrow> NaN | Some x \<Rightarrow> Fin x) ps"

definition with_close :: "fl list \<Rightarrow> frame \<Rightarrow> frame" where
  "with_close cs df = set_col ''Close'' (Numeric cs) df"

text \<open>
  The return series as the specification writes it, for closes that are all present:
  \<open>r[i] = close[i] / close[i-1] - 1\<close>, the first close having no predecessor.
\<close>

fun returns_from :: "real \<Rightarrow> real list \<Rightarrow> real list" where
  "returns_from prev [] = []"
| "returns_from prev (x # xs) = (x / prev - 1) # returns_from x xs"

section \<open>Examples\<close>

text \<open>Two stored frames: one as the provider delivers it, one that has no \<^verbatim>\<open>Close\<close> column.\<close>

definition sample_frame :: frame where
  "sample_frame =
     \<lparr>ix = RangeIx [0, 1, 2],
      cols = [(''Date'', Stamps [Some 1, Some 2, Some 3]),
              (''Close'', Numeric [Fin 100, Fin 110, Fin 121])]\<rparr>"

definition no_close_frame :: frame where
  "no_close_frame =
     \<lparr>ix = RangeIx [0, 1],
      cols = [(''Date'', Stamps [Some 1, Some 2]), (''Open'', Numeric [Fin 7, Fin 8])]\<rparr>"

definition sample_data :: analyzer where
  "sample_data = [(''AAA'', no_close_frame), (''BBB'', sample_frame)]"

text \<open>A frame whose first row has a close but no volume yet.\<close>

definition gap_frame :: frame where
  "gap_frame =
     \<lparr>ix = RangeIx [0, 1, 2],
      cols = [(''Date'', Stamps [Some 1, Some 2, Some 3]),
              (''Close'', Numeric [Fin 100, Fin 110, Fin 121]),
              (''Volume'', Numeric [NaN, Fin 5, NaN])]\<rparr>"

text \<open>
  A decomposition that, like statsmodels', refuses a series of fewer than two periods of
  252 observations (what it computes for a longer one does not matter here).
\<close>

definition short_decomp :: "index \<Rightarrow> column \<Rightarrow> error + unit" where
  "short_decomp i c = (if col_length c < 2 * 252 then Inl ValueError else Inr ())"



text \<open>A close that rises and falls back, and a frame of a single row.\<close>

definition vee_frame :: frame where
  "vee_frame =
     \<lparr>ix = RangeIx [0, 1, 2],
      cols = [(''Date'', Stamps [Some 1, Some 2, Some 3]),
              (''Close'', Numeric [Fin 1, Fin 2, Fin 1])]\<rparr>"

definition vee_data :: analyzer where
  "vee_data = [(''AAA'', no_close_frame), (''VVV'', vee_frame)]"

definition single_frame :: frame where
  "single_frame = \<lparr>ix = RangeIx [0], cols = [(''Date'', Stamps [Some 1]), (''Close'', Numeric [Fin 100])]\<rparr>"

definition gap_data :: analyzer where
  "gap_data = [(''AAA'', no_close_frame), (''CCC'', gap_frame)]"

section \<open>The per-symbol loop\<close>

lemma new_data_loop:
  "new_data (for_each_symbol body res lg data) = map (\<lambda>(s, df). (s, frame_after (body s df))) data"
  by (induction data arbitrary: res lg) (auto simp: Let_def)

lemma result_loop:
  "distinct (map fst data) \<Longrightarrow>
   result (for_each_symbol body res lg data) t =
     (case map_of data t of
        None \<Rightarrow> res t
      | Some df \<Rightarrow> (case stored (body t df) of None \<Rightarrow> res t | Some v \<Rightarrow> Some v))"
proof (induction data arbitrary: res lg)
  case Nil
  then show ?case by simp
next
  case (Cons p data)
  obtain s df where p: "p = (s, df)" by (cases p)
  from Cons.prems have d: "distinct (map fst data)" and s: "s \<notin> fst ` set data"
    by (auto simp: p)
  from s have none: "map_of data s = None" by (simp add: map_of_eq_None_iff)
  show ?case
    using Cons.IH[OF d] none
    by (auto simp: p Let_def split: option.splits)
qed

lemma result_run:
  assumes "distinct (map fst data)" and "(t, dt) \<in> set data"
  shows "result (run body data) t = stored (body t dt)"
proof -
  from assms have "map_of data t = Some dt" by simp
  then show ?thesis
    using result_loop[OF assms(1), of body Map.empty "[]" t]
    by (simp add: run_def split: option.splits)
qed

lemma result_run_single: "result (run body [(t, dt)]) t = stored (body t dt)"
  by (rule result_run) simp_all

lemma new_data_run: "new_data (run body data) = map (\<lambda>(s, df). (s, frame_after (body s df))) data"
  by (simp add: run_def new_data_loop)

lemma stored_frame:
  "distinct (map fst data) \<Longrightarrow> (s, df) \<in> set data \<Longrightarrow>
   map_of (new_data (run body data)) s = Some (frame_after (body s df))"
proof -
  assume d: "distinct (map fst data)" and m: "(s, df) \<in> set data"
  have keys: "map fst (map (\<lambda>(s, df). (s, frame_after (body s df))) data) = map fst data"
    by (simp add: comp_def split_def)
  from m have "(s, frame_after (body s df)) \<in> set (map (\<lambda>(s, df). (s, frame_after (body s df))) data)"
    by force
  with d keys show ?thesis
    by (simp add: new_data_run del: map_map)
qed

lemma errors_loop:
  "errors (for_each_symbol body res lg data) =
     lg @ concat (map (\<lambda>(s, df). case raised (body s df) of None \<Rightarrow> [] | Some e \<Rightarrow> [(s, e)]) data)"
  by (induction data arbitrary: res lg) (auto simp: Let_def split: option.splits)

lemma errors_run:
  "errors (run body data) =
     concat (map (\<lambda>(s, df). case raised (body s df) of None \<Rightarrow> [] | Some e \<Rightarrow> [(s, e)]) data)"
  by (simp add: run_def errors_loop)

lemma no_error_logged:
  assumes "distinct (map fst data)" and "(s, df) \<in> set data" and "raised (body s df) = None"
  shows "s \<notin> fst ` set (errors (run body data))"
proof
  assume "s \<in> fst ` set (errors (run body data))"
  then obtain e where "(s, e) \<in> set (errors (run body data))" by auto
  then obtain df' where m: "(s, df') \<in> set data" and r: "raised (body s df') = Some e"
    by (auto simp: errors_run split: option.splits)
  from assms(1,2) m have "df' = df" by (meson eq_key_imp_eq_value)
  with r assms(3) show False by simp
qed

lemma raise_fields [simp]:
  "frame_after (raise df e) = df" "stored (raise df e) = None" "raised (raise df e) = Some e"
  by (simp_all add: raise_def)

lemma finish_fields [simp]:
  "frame_after (finish df v) = df" "stored (finish df v) = v" "raised (finish df v) = None"
  by (simp_all add: finish_def)

section \<open>Moving average\<close>

lemma window_one: "i < length ys \<Longrightarrow> window_at (Suc 0) ys i = [ys ! i]"
  by (simp add: window_at_def take_Suc_conv_app_nth)

lemma rolling_row_one: "i < length ys \<Longrightarrow> \<not> isinf (ys ! i) \<Longrightarrow> rolling_row 1 ys i = ys ! i"
  by (cases "ys ! i") (simp_all add: rolling_row_def window_one valid_def)

lemma rolling_mean_one:
  assumes "\<forall>x \<in> set xs. \<not> isinf x"
  shows "rolling_mean 1 xs = xs"
proof -
  have ys: "map inf_to_nan xs = xs"
    using assms by (simp add: inf_to_nan_def map_idI)
  have "map (rolling_row 1 xs) [0..<length xs] = map (\<lambda>i. xs ! i) [0..<length xs]"
    using assms by (intro map_cong refl rolling_row_one) simp_all
  then show ?thesis by (simp add: rolling_mean_def ys map_nth)
qed

lemma closes_finite: "\<forall>x \<in> set (closes ps). \<not> isinf x"
  by (auto simp: closes_def split: option.splits)

lemma get_with_close: "get_col (with_close cs df) ''Close'' = Inr (Numeric cs)"
  by (simp add: get_col_def with_close_def set_col_def update_conv')

lemma ma_name_1: "ma_name 1 = ''1-Day MA''"
  by (simp add: ma_name_def)

text \<open>
  C7. For every price series, the moving average with window 1 is the Close series itself,
  row for row (a missing close gives a missing average), and
  \<^verbatim>\<open>calculate_moving_average(window=1)\<close> stores exactly that series as the column
  \<^verbatim>\<open>1-Day MA\<close> of the frame.
\<close>

theorem moving_average_window_one:
  "rolling_mean 1 (closes ps) = closes ps \<and>
   moving_average_one 1 (with_close (closes ps) df) =
     finish (set_col ''1-Day MA'' (Numeric (closes ps)) (with_close (closes ps) df)) None"
  using rolling_mean_one[OF closes_finite, of ps]
  by (simp add: moving_average_one_def get_with_close ma_name_1[simplified])

theorem moving_average_window_one_witness:
  "rolling_mean 1 (closes [Some 100, None, Some 110]) = closes [Some 100, None, Some 110]"
  using moving_average_window_one[of "[Some 100, None, Some 110]"] by (rule conjunct1)

section \<open>Isolation of the symbols\<close>

lemma stored_iff_not_raised:
  "(raised (volatility_one df) = None) = (stored (volatility_one df) \<noteq> None)"
  "(raised (sharpe_one df) = None) = (stored (sharpe_one df) \<noteq> None)"
  "(raised (max_drawdown_one df) = None) = (stored (max_drawdown_one df) \<noteq> None)"
  by (cases "close_prices df"; simp add: volatility_one_def sharpe_one_def max_drawdown_one_def Let_def)+

text \<open>
  C1. In each of the three statistic operations (volatility, Sharpe ratio, max drawdown), a
  symbol whose computation raises has no entry in the returned map, and every symbol's
  entry is what the operation returns for that symbol's frame on its own, whatever happens
  for the others; a symbol whose computation does not raise has an entry.
\<close>

theorem per_symbol_isolation:
  assumes "distinct (map fst data)" and "(s, df) \<in> set data" and "(t, dt) \<in> set data"
  shows
    "(raised (volatility_one df) \<noteq> None \<longrightarrow> result (calculate_volatility data) s = None) \<and>
     (raised (sharpe_one df) \<noteq> None \<longrightarrow> result (calculate_sharpe_ratio data) s = None) \<and>
     (raised (max_drawdown_one df) \<noteq> None \<longrightarrow> result (calculate_max_drawdown data) s = None) \<and>
     result (calculate_volatility data) t = result (calculate_volatility [(t, dt)]) t \<and>
     result (calculate_sharpe_ratio data) t = result (calculate_sharpe_ratio [(t, dt)]) t \<and>
     result (calculate_max_drawdown data) t = result (calculate_max_drawdown [(t, dt)]) t \<and>
     (raised (volatility_one dt) = None \<longrightarrow> result (calculate_volatility data) t \<noteq> None) \<and>
     (raised (sharpe_one dt) = None \<longrightarrow> result (calculate_sharpe_ratio data) t \<noteq> None) \<and>
     (raised (max_drawdown_one dt) = None \<longrightarrow> result (calculate_max_drawdown data) t \<noteq> None)"
  using stored_iff_not_raised[of df] stored_iff_not_raised[of dt]
  by (simp add: calculate_volatility_def calculate_sharpe_ratio_def calculate_max_drawdown_def
      result_run[OF assms(1,2)] result_run[OF assms(1,3)] result_run_single)

lemma close_no_close: "close_prices no_close_frame = Inl KeyError"
  by (simp add: close_prices_def get_col_def no_close_frame_def)

lemma close_sample: "close_prices sample_frame = Inr [Fin 100, Fin 110, Fin 121]"
  by (simp add: close_prices_def get_col_def sample_frame_def)

lemma sample_raises:
  "raised (volatility_one no_close_frame) = Some KeyError"
  "raised (sharpe_one no_close_frame) = Some KeyError"
  "raised (max_drawdown_one no_close_frame) = Some KeyError"
  "raised (volatility_one sample_frame) = None"
  "raised (sharpe_one sample_frame) = None"
  "raised (max_drawdown_one sample_frame) = None"
  by (simp_all add: volatility_one_def sharpe_one_def max_drawdown_one_def close_no_close
      close_sample Let_def)

theorem per_symbol_isolation_witness:
  "distinct (map fst sample_data) \<and>
   (''AAA'', no_close_frame) \<in> set sample_data \<and> (''BBB'', sample_frame) \<in> set sample_data \<and>
   raised (volatility_one no_close_frame) = Some KeyError \<and>
   raised (volatility_one sample_frame) = None \<and>
   result (calculate_volatility sample_data) ''AAA'' = None \<and>
   result (calculate_sharpe_ratio sample_data) ''AAA'' = None \<and>
   result (calculate_max_drawdown sample_data) ''AAA'' = None \<and>
   result (calculate_volatility sample_data) ''BBB'' \<noteq> None \<and>
   result (calculate_volatility sample_data) ''BBB'' =
     result (calculate_volatility [(''BBB'', sample_frame)]) ''BBB''"
proof -
  have d: "distinct (map fst sample_data)"
    and a: "(''AAA'', no_close_frame) \<in> set sample_data"
    and b: "(''BBB'', sample_frame) \<in> set sample_data"
    by (simp_all add: sample_data_def)
  note th = per_symbol_isolation[OF d a b, unfolded sample_raises]
  have 1: "result (calculate_volatility sample_data) ''AAA'' = None"
    and 2: "result (calculate_sharpe_ratio sample_data) ''AAA'' = None"
    and 3: "result (calculate_max_drawdown sample_data) ''AAA'' = None"
    and 4: "result (calculate_volatility sample_data) ''BBB'' \<noteq> None"
    and 5: "result (calculate_volatility sample_data) ''BBB'' =
            result (calculate_volatility [(''BBB'', sample_frame)]) ''BBB''"
    using th by blast+
  show ?thesis
    using d a b 1 2 3 4 5 sample_raises(1,4) by blast
qed

section \<open>What the statistics write into the stored frame\<close>

lemma get_set_same: "get_col (set_col n c df) n = Inr c"
  by (simp add: get_col_def set_col_def update_conv')

lemma get_set_other: "m \<noteq> n \<Longrightarrow> get_col (set_col n c df) m = get_col df m"
  by (simp add: get_col_def set_col_def update_conv')

lemma ix_set_col: "ix (set_col n c df) = ix df"
  by (simp add: set_col_def)

lemma pct_change_sample: "pct_change [Fin 100, Fin 110, Fin 121] = [NaN, Fin (1 / 10), Fin (1 / 10)]"
  by (simp add: pct_change_def ffill_def shift_def fsub_def)

text \<open>
  C2 as stated (the scalar statistic operations leave the stored frame unchanged, no column
  added) fails: after \<^verbatim>\<open>calculate_volatility\<close> the stored frame has a column
  \<^verbatim>\<open>Daily Return\<close> that it did not have before.
\<close>

theorem statistics_leave_frame_counterexample:
  "new_data (calculate_volatility [(''BBB'', sample_frame)]) =
     [(''BBB'',
       \<lparr>ix = RangeIx [0, 1, 2],
        cols = [(''Date'', Stamps [Some 1, Some 2, Some 3]),
                (''Close'', Numeric [Fin 100, Fin 110, Fin 121]),
                (''Daily Return'', Numeric [NaN, Fin (1 / 10), Fin (1 / 10)])]\<rparr>)] \<and>
   new_data (calculate_volatility [(''BBB'', sample_frame)]) \<noteq> [(''BBB'', sample_frame)]"
  by (simp add: calculate_volatility_def new_data_run volatility_one_def close_sample
      pct_change_sample set_col_def Let_def)
     (simp add: sample_frame_def)

lemma decompose_success_cols:
  assumes "raised (decompose_one decomp draw s df) = None"
  shows "get_col (frame_after (decompose_one decomp draw s df)) name = get_col df name"
proof -
  from assms obtain c where c: "map_of (cols df) ''Date'' = Some c"
    by (auto simp: decompose_one_def set_index_def split: option.splits)
  let ?df1 = "\<lparr>ix = NamedIx ''Date'' c, cols = AList.delete ''Date'' (cols df)\<rparr>"
  have notin: "''Date'' \<notin> set (map fst (cols ?df1))"
    by (simp add: delete_keys)
  have r: "reset_index ?df1 = Inr \<lparr>ix = RangeIx [0..<col_length c], cols = (''Date'', c) # AList.delete ''Date'' (cols df)\<rparr>"
    using notin by (simp add: reset_index_def)
  from assms have "frame_after (decompose_one decomp draw s df) =
      \<lparr>ix = RangeIx [0..<col_length c], cols = (''Date'', c) # AList.delete ''Date'' (cols df)\<rparr>"
    using c r by (auto simp: decompose_one_def set_index_def split: sum.splits option.splits)
  then show ?thesis
    using c by (simp add: get_col_def delete_conv)
qed

text \<open>
  C2, amended. The scalar statistic operations change nothing in the stored frame but the
  derived columns they write: the index, the \<^verbatim>\<open>Close\<close> column and every other column stay
  as they are. Volatility and Sharpe ratio add or overwrite \<^verbatim>\<open>Daily Return\<close>; max drawdown
  adds or overwrites \<^verbatim>\<open>Cumulative Return\<close>, \<^verbatim>\<open>Peak\<close> and \<^verbatim>\<open>Drawdown\<close>; when the
  computation raises, the frame is left as it was. The moving average adds or overwrites the
  column named after its window, and a decomposition that succeeds leaves every column as
  it was: it appends none.
\<close>

theorem statistics_write_derived_columns:
  "ix (frame_after (volatility_one df)) = ix df \<and>
   ix (frame_after (sharpe_one df)) = ix df \<and>
   ix (frame_after (max_drawdown_one df)) = ix df \<and>
   (name \<noteq> ''Daily Return'' \<longrightarrow>
      get_col (frame_after (volatility_one df)) name = get_col df name \<and>
      get_col (frame_after (sharpe_one df)) name = get_col df name) \<and>
   (name \<noteq> ''Cumulative Return'' \<and> name \<noteq> ''Peak'' \<and> name \<noteq> ''Drawdown'' \<longrightarrow>
      get_col (frame_after (max_drawdown_one df)) name = get_col df name) \<and>
   (close_prices df = Inr cs \<longrightarrow>
      frame_after (volatility_one df) = set_col ''Daily Return'' (Numeric (pct_change cs)) df \<and>
      frame_after (sharpe_one df) = set_col ''Daily Return'' (Numeric (pct_change cs)) df \<and>
      frame_after (max_drawdown_one df) =
        set_col ''Drawdown'' (Numeric (drawdown (cumulative_return (pct_change cs))))
          (set_col ''Peak'' (Numeric (peak (cumulative_return (pct_change cs))))
            (set_col ''Cumulative Return'' (Numeric (cumulative_return (pct_change cs))) df)) \<and>
      (0 \<le> window \<longrightarrow>
         frame_after (moving_average_one window df) =
           set_col (ma_name (nat window)) (Numeric (rolling_mean (nat window) cs)) df)) \<and>
   (close_prices df = Inl e \<longrightarrow>
      frame_after (volatility_one df) = df \<and> frame_after (sharpe_one df) = df \<and>
      frame_after (max_drawdown_one df) = df) \<and>
   (raised (decompose_one decomp draw s df) = None \<longrightarrow>
      get_col (frame_after (decompose_one decomp draw s df)) name = get_col df name) \<and>
   new_data (calculate_volatility data) = map (\<lambda>(s, df). (s, frame_after (volatility_one df))) data \<and>
   new_data (calculate_sharpe_ratio data) = map (\<lambda>(s, df). (s, frame_after (sharpe_one df))) data \<and>
   new_data (calculate_max_drawdown data) = map (\<lambda>(s, df). (s, frame_after (max_drawdown_one df))) data"
proof -
  have ma: "close_prices df = Inr cs \<Longrightarrow> 0 \<le> window \<Longrightarrow>
      frame_after (moving_average_one window df) =
           set_col (ma_name (nat window)) (Numeric (rolling_mean (nat window) cs)) df"
    by (cases "get_col df ''Close''"; cases "projr (get_col df ''Close'')")
       (auto simp: close_prices_def moving_average_one_def)
  show ?thesis
    using ma decompose_success_cols[of decomp draw s df name]
    by (cases "close_prices df")
       (simp_all add: volatility_one_def sharpe_one_def max_drawdown_one_def Let_def
         get_set_other ix_set_col calculate_volatility_def calculate_sharpe_ratio_def
         calculate_max_drawdown_def new_data_run)
qed

theorem statistics_write_derived_columns_witness:
  "close_prices sample_frame = Inr [Fin 100, Fin 110, Fin 121] \<and>
   ix (frame_after (volatility_one sample_frame)) = ix sample_frame \<and>
   get_col (frame_after (volatility_one sample_frame)) ''Close'' = get_col sample_frame ''Close'' \<and>
   get_col (frame_after (max_drawdown_one sample_frame)) ''Close'' = get_col sample_frame ''Close'' \<and>
   frame_after (volatility_one sample_frame) =
     set_col ''Daily Return'' (Numeric [NaN, Fin (1 / 10), Fin (1 / 10)]) sample_frame"
proof -
  note th = statistics_write_derived_columns[where df = sample_frame and name = "''Close''"
      and cs = "[Fin 100, Fin 110, Fin 121]"]
  note rest = th[THEN conjunct2, THEN conjunct2, THEN conjunct2]
  have n: "''Close'' \<noteq> ''Daily Return''"
    and m: "''Close'' \<noteq> ''Cumulative Return'' \<and> ''Close'' \<noteq> ''Peak'' \<and> ''Close'' \<noteq> ''Drawdown''"
    by simp_all
  note c1 = th[THEN conjunct1]
  note c4 = rest[THEN conjunct1, THEN mp, OF n, THEN conjunct1]
  note c5 = rest[THEN conjunct2, THEN conjunct1, THEN mp, OF m]
  note c6 = rest[THEN conjunct2, THEN conjunct2, THEN conjunct1, THEN mp, OF close_sample,
      THEN conjunct1, unfolded pct_change_sample]
  show ?thesis
    by (intro conjI close_sample c1 c4 c5 c6)
qed

section \<open>Daily returns\<close>

lemma ffill_from_id: "\<forall>x \<in> set xs. \<not> na x \<Longrightarrow> ffill_from na prev xs = xs"
  by (induction xs arbitrary: prev) simp_all

lemma ffill_id: "\<forall>x \<in> set xs. \<not> na x \<Longrightarrow> ffill na xs = xs"
  by (simp add: ffill_def ffill_from_id)

lemma closes_present: "closes (map Some ps) = map Fin ps"
  by (simp add: closes_def)

lemma zip_take_len: "zip xs (take (length xs) ys) = zip xs ys"
proof (induction xs arbitrary: ys)
  case Nil
  then show ?case by simp
next
  case (Cons x xs)
  then show ?case by (cases ys) simp_all
qed

lemma pct_change_no_gap:
  "\<forall>x \<in> set xs. \<not> isnan x \<Longrightarrow>
   pct_change xs = map (\<lambda>(a, b). fsub (fdiv a b) (Fin 1)) (zip xs (NaN # xs))"
  by (simp add: pct_change_def ffill_id shift_def zip_take_len)

lemma ratio_rows:
  "prev \<noteq> 0 \<Longrightarrow> \<forall>x \<in> set xs. x \<noteq> 0 \<Longrightarrow>
   map (\<lambda>(a, b). fsub (fdiv a b) (Fin 1)) (zip (map Fin xs) (Fin prev # map Fin xs)) =
   map Fin (returns_from prev xs)"
  by (induction xs arbitrary: prev) (simp_all add: fsub_def)

lemma pct_change_present:
  assumes "\<forall>x \<in> set (p # ps). x \<noteq> 0"
  shows "pct_change (map Fin (p # ps)) = NaN # map Fin (returns_from p ps)"
proof -
  have "\<forall>x \<in> set (map Fin (p # ps)). \<not> isnan x" by simp
  from pct_change_no_gap[OF this] ratio_rows[of p ps] assms
  show ?thesis by (simp add: fsub_def)
qed

lemma returns_from_nth:
  "i < length xs \<Longrightarrow> returns_from prev xs ! i = xs ! i / (prev # xs) ! i - 1"
proof (induction xs arbitrary: prev i)
  case Nil
  then show ?case by simp
next
  case (Cons x xs)
  then show ?case by (cases i) simp_all
qed

lemma length_returns_from: "length (returns_from prev xs) = length xs"
  by (induction xs arbitrary: prev) simp_all

lemma valid_Fin: "valid (map Fin xs) = map Fin xs"
  by (induction xs) (simp_all add: valid_def)

text \<open>
  C4, amended. For every non-empty price series whose closes are all present and non-zero,
  the daily-return series has one row per price row, its first row is undefined (NaN), row
  \<open>i \<ge> 1\<close> is \<open>Close[i] / Close[i-1] - 1\<close>, exactly \<open>length - 1\<close> of its rows are defined,
  and it is what the statistic operations store as the column \<^verbatim>\<open>Daily Return\<close>.
\<close>

theorem daily_return_series:
  assumes "ps \<noteq> []" and "\<forall>p \<in> set ps. p \<noteq> 0"
  shows "length (pct_change (closes (map Some ps))) = length ps \<and>
         pct_change (closes (map Some ps)) ! 0 = NaN \<and>
         (\<forall>i. 1 \<le> i \<and> i < length ps \<longrightarrow>
            pct_change (closes (map Some ps)) ! i = Fin (ps ! i / ps ! (i - 1) - 1)) \<and>
         length (valid (pct_change (closes (map Some ps)))) = length ps - 1 \<and>
         get_col (frame_after (volatility_one (with_close (closes (map Some ps)) df)))
           ''Daily Return'' = Inr (Numeric (pct_change (closes (map Some ps))))"
proof -
  from assms(1) obtain p qs where ps: "ps = p # qs" by (cases ps) auto
  with assms(2) have nz: "\<forall>x \<in> set (p # qs). x \<noteq> 0" by simp
  have pc: "pct_change (closes (map Some ps)) = NaN # map Fin (returns_from p qs)"
    using pct_change_present[OF nz] by (simp only: closes_present ps)
  have rows: "\<forall>i. 1 \<le> i \<and> i < length ps \<longrightarrow>
      pct_change (closes (map Some ps)) ! i = Fin (ps ! i / ps ! (i - 1) - 1)"
  proof (intro allI impI)
    fix i assume i: "1 \<le> i \<and> i < length ps"
    then obtain j where j: "i = Suc j" by (cases i) auto
    with i have "j < length qs" by (simp add: ps)
    then show "pct_change (closes (map Some ps)) ! i = Fin (ps ! i / ps ! (i - 1) - 1)"
      unfolding pc by (simp add: j ps length_returns_from returns_from_nth)
  qed
  have cnt: "length (valid (pct_change (closes (map Some ps)))) = length ps - 1"
    using valid_Fin[of "returns_from p qs"]
    unfolding pc by (simp add: ps valid_def length_returns_from)
  have col: "get_col (frame_after (volatility_one (with_close (closes (map Some ps)) df)))
           ''Daily Return'' = Inr (Numeric (pct_change (closes (map Some ps))))"
    by (simp add: volatility_one_def close_prices_def get_with_close Let_def get_set_same)
  have len: "length (pct_change (closes (map Some ps))) = length ps"
    unfolding pc by (simp add: ps length_returns_from)
  have first: "pct_change (closes (map Some ps)) ! 0 = NaN"
    unfolding pc by simp
  show ?thesis
    by (intro conjI len first rows cnt col)
qed

text \<open>
  C4 as stated (for every price series the number of defined returns is one less than the
  number of prices) fails for the empty series (no return, not minus one), for a series
  that starts with a missing close (one defined return for three rows) and for a series of
  zero closes (zero over zero is NaN).
\<close>

theorem daily_return_series_counterexample:
  "int (length (valid (pct_change (closes [])))) \<noteq> int (length (closes [])) - 1 \<and>
   int (length (valid (pct_change (closes [None, Some 100, Some 110])))) \<noteq>
     int (length (closes [None, Some 100, Some 110])) - 1 \<and>
   int (length (valid (pct_change (closes [Some 0, Some 0])))) \<noteq>
     int (length (closes [Some 0, Some 0])) - 1"
  by (simp add: closes_def pct_change_def ffill_def shift_def fsub_def valid_def signed_inf_def)

theorem daily_return_series_witness:
  "[100, 110, 121] \<noteq> ([] :: real list) \<and>
   length (pct_change (closes (map Some [100, 110, 121]))) = 3 \<and>
   pct_change (closes (map Some [100, 110, 121])) ! 0 = NaN \<and>
   pct_change (closes (map Some [100, 110, 121])) ! 2 = Fin (1 / 10) \<and>
   length (valid (pct_change (closes (map Some [100, 110, 121])))) = 2"
proof -
  have a: "[100, 110, 121] \<noteq> ([] :: real list)" and b: "\<forall>p \<in> set [100, 110, 121 :: real]. p \<noteq> 0"
    by simp_all
  note th = daily_return_series[OF a b]
  note c3 = th[THEN conjunct2, THEN conjunct2, THEN conjunct1, rule_format, of 2]
  have c3': "pct_change (closes (map Some [100, 110, 121])) ! 2 = Fin (1 / 10)"
    using c3 by simp
  have c1: "length (pct_change (closes (map Some [100, 110, 121]))) = 3"
    using th[THEN conjunct1] by simp
  have c4: "length (valid (pct_change (closes (map Some [100, 110, 121])))) = 2"
    using th[THEN conjunct2, THEN conjunct2, THEN conjunct2, THEN conjunct1] by simp
  show ?thesis
    by (intro conjI a c1 th[THEN conjunct2, THEN conjunct1] c3' c4)
qed

section \<open>Cumulative returns\<close>

text \<open>
  In exact arithmetic the running product of \<open>1 + DailyReturn\<close> telescopes: for closes
  that are all present and non-zero, row \<open>i \<ge> 1\<close> of the cumulative return is
  \<open>Close[i] / Close[0] - 1\<close>, and the first row is undefined. The analyzer computes in
  float64, where every quotient, sum and product is rounded, so its values agree with this
  only up to rounding; rounding is not modelled here and nothing below bounds it.
\<close>

lemma running_product:
  "prev \<noteq> 0 \<Longrightarrow> \<forall>x \<in> set xs. x \<noteq> 0 \<Longrightarrow>
   cumprod_from (Fin a) (map (fadd (Fin 1)) (map Fin (returns_from prev xs))) =
   map (\<lambda>x. Fin (a * x / prev)) xs"
proof (induction xs arbitrary: a prev)
  case Nil
  then show ?case by simp
next
  case (Cons x xs)
  from Cons.prems have x: "x \<noteq> 0" and rest: "\<forall>y \<in> set xs. y \<noteq> 0" by simp_all
  have "map (\<lambda>y. Fin (a * (x / prev) * y / x)) xs = map (\<lambda>y. Fin (a * y / prev)) xs"
    using x by simp
  with Cons.IH[OF x rest, of "a * (x / prev)"] show ?case
    by simp
qed

lemma cumulative_return_present:
  assumes "\<forall>x \<in> set (p # ps). x \<noteq> 0"
  shows "cumulative_return (pct_change (map Fin (p # ps))) = NaN # map (\<lambda>x. Fin (x / p - 1)) ps"
proof -
  from assms have p: "p \<noteq> 0" and ps: "\<forall>x \<in> set ps. x \<noteq> 0" by simp_all
  let ?rs = "map Fin (returns_from p ps)"
  have "cumulative_return (pct_change (map Fin (p # ps))) = cumulative_return (NaN # ?rs)"
    by (simp only: pct_change_present[OF assms])
  also have "\<dots> = NaN # map (\<lambda>x. fsub x (Fin 1)) (cumprod_from (Fin 1) (map (fadd (Fin 1)) ?rs))"
    by (simp add: cumulative_return_def cumprod_def fsub_def)
  also have "\<dots> = NaN # map (\<lambda>x. fsub x (Fin 1)) (map (\<lambda>x. Fin (1 * x / p)) ps)"
    by (simp only: running_product[OF p ps, of 1])
  also have "\<dots> = NaN # map (\<lambda>x. Fin (x / p - 1)) ps"
    by (simp add: fsub_def)
  finally show ?thesis .
qed

lemma cumulative_return_single_row: "cumulative_return (pct_change (closes [Some 100])) = [NaN]"
  by (simp add: closes_def pct_change_def ffill_def shift_def fsub_def cumulative_return_def
      cumprod_def)

section \<open>Drawdown\<close>

lemma fle_refl: "\<not> isnan a \<Longrightarrow> fle a a"
  by (cases a) simp_all

lemma fle_total: "\<not> isnan a \<Longrightarrow> \<not> isnan b \<Longrightarrow> fle a b \<or> fle b a"
  by (cases a; cases b) auto

lemma fle_trans: "fle a b \<Longrightarrow> fle b c \<Longrightarrow> fle a c"
  by (cases a; cases b; cases c) simp_all

lemma fle_not_nan: "fle a b \<Longrightarrow> \<not> isnan a \<and> \<not> isnan b"
  by (cases a; cases b) simp_all

lemma fmax_bound: "\<not> isnan a \<Longrightarrow> \<not> isnan x \<Longrightarrow> \<not> isnan (fmax a x) \<and> fle x (fmax a x)"
  using fle_total[of a x] by (auto simp: fmax_def fle_refl)

lemma fmin_bound:
  "\<not> isnan a \<Longrightarrow> \<not> isnan x \<Longrightarrow> \<not> isnan (fmin a x) \<and> fle (fmin a x) a \<and> fle (fmin a x) x"
  using fle_total[of a x] by (auto simp: fmin_def fle_refl)

lemma below_peak: "\<not> isnan m \<Longrightarrow> fle x m \<Longrightarrow> isnan (fsub x m) \<or> fle (fsub x m) (Fin 0)"
  by (cases x; cases m) (simp_all add: fsub_def)

lemma drawdown_rows:
  "\<not> isnan acc \<Longrightarrow>
   \<forall>d \<in> set (map (\<lambda>(c, p). fsub c p) (zip cs (cummax_from acc cs))). isnan d \<or> fle d (Fin 0)"
proof (induction cs arbitrary: acc)
  case Nil
  then show ?case by simp
next
  case (Cons x cs)
  show ?case
  proof (cases "isnan x")
    case True
    then have "fsub x NaN = NaN" by (cases x) (simp_all add: fsub_def)
    with True Cons show ?thesis by simp
  next
    case False
    from fmax_bound[OF Cons.prems False]
    have m: "\<not> isnan (fmax acc x)" and le: "fle x (fmax acc x)" by simp_all
    from below_peak[OF m le] Cons.IH[OF m] False show ?thesis by simp
  qed
qed

lemma peak_rows:
  "\<not> isnan acc \<Longrightarrow> i < length cs \<Longrightarrow> \<not> isnan (cs ! i) \<Longrightarrow>
   fle (cs ! i) (cummax_from acc cs ! i)"
proof (induction cs arbitrary: acc i)
  case Nil
  then show ?case by simp
next
  case (Cons x cs)
  show ?case
  proof (cases i)
    case 0
    with Cons.prems fmax_bound[of acc x] show ?thesis by simp
  next
    case (Suc j)
    show ?thesis
    proof (cases "isnan x")
      case True
      with Cons.prems Suc Cons.IH[of acc j] show ?thesis by simp
    next
      case False
      with fmax_bound[OF Cons.prems(1) False] Cons.prems Suc Cons.IH[of "fmax acc x" j]
      show ?thesis by simp
    qed
  qed
qed

lemma foldl_fmin_member: "foldl fmin v vs \<in> set (v # vs)"
proof (induction vs arbitrary: v)
  case Nil
  then show ?case by simp
next
  case (Cons x vs)
  from Cons.IH[of "fmin v x"] show ?case by (auto simp: fmin_def split: if_splits)
qed

lemma foldl_fmin_least:
  "\<not> isnan v \<Longrightarrow> \<forall>x \<in> set vs. \<not> isnan x \<Longrightarrow> \<forall>y \<in> set (v # vs). fle (foldl fmin v vs) y"
proof (induction vs arbitrary: v)
  case Nil
  then show ?case by (simp add: fle_refl)
next
  case (Cons x vs)
  from Cons.prems have x: "\<not> isnan x" and rest: "\<forall>y \<in> set vs. \<not> isnan y" by simp_all
  from fmin_bound[OF Cons.prems(1) x]
  have m: "\<not> isnan (fmin v x)" and mv: "fle (fmin v x) v" and mx: "fle (fmin v x) x"
    by simp_all
  from Cons.IH[OF m rest]
  have all: "\<forall>y \<in> set (fmin v x # vs). fle (foldl fmin (fmin v x) vs) y" .
  then have top: "fle (foldl fmin (fmin v x) vs) (fmin v x)" by simp
  from fle_trans[OF top mv] fle_trans[OF top mx] all show ?case by simp
qed

lemma nanmin_cases:
  "(valid ds = [] \<and> nanmin ds = NaN) \<or>
   (valid ds \<noteq> [] \<and> nanmin ds \<in> set (valid ds) \<and> (\<forall>d \<in> set (valid ds). fle (nanmin ds) d))"
proof (cases "valid ds")
  case Nil
  then show ?thesis by (simp add: nanmin_def)
next
  case (Cons v vs)
  have "\<forall>x \<in> set (valid ds). \<not> isnan x" by (simp add: valid_def)
  with Cons have v: "\<not> isnan v" and vs: "\<forall>x \<in> set vs. \<not> isnan x" by simp_all
  from foldl_fmin_member[of v vs] foldl_fmin_least[OF v vs] Cons
  show ?thesis by (simp add: nanmin_def)
qed

lemma max_drawdown_of_close:
  "close_prices df = Inr cs \<Longrightarrow>
   max_drawdown_one df =
     finish (set_col ''Drawdown'' (Numeric (drawdown (cumulative_return (pct_change cs))))
              (set_col ''Peak'' (Numeric (peak (cumulative_return (pct_change cs))))
                (set_col ''Cumulative Return'' (Numeric (cumulative_return (pct_change cs))) df)))
       (Some (nanmin (drawdown (cumulative_return (pct_change cs)))))"
  by (simp add: max_drawdown_one_def Let_def)

text \<open>
  C6, amended. With \<open>Peak[i]\<close> the running maximum of the defined cumulative returns up to
  row \<open>i\<close> (so a defined cumulative return is never above its peak) and
  \<open>Drawdown[i] = CumulativeReturn[i] - Peak[i]\<close>, every drawdown is either undefined (NaN, as
  in the first row) or at most 0. For every symbol whose stored frame has a numeric
  \<^verbatim>\<open>Close\<close> series, \<^verbatim>\<open>calculate_max_drawdown\<close> logs no error, stores these series as the
  columns \<^verbatim>\<open>Cumulative Return\<close>, \<^verbatim>\<open>Peak\<close> and \<^verbatim>\<open>Drawdown\<close>, and returns under that symbol
  the least defined drawdown, which is at most 0, when there is one, and NaN when there is
  none.
\<close>

theorem max_drawdown_nonpositive:
  assumes "distinct (map fst data)" and "(s, df) \<in> set data" and "close_prices df = Inr cs"
  shows
    "(let cum = cumulative_return (pct_change cs); dd = drawdown cum
      in (\<forall>d \<in> set dd. isnan d \<or> fle d (Fin 0)) \<and>
         (\<forall>i. i < length cum \<and> \<not> isnan (cum ! i) \<longrightarrow> fle (cum ! i) (peak cum ! i)) \<and>
         result (calculate_max_drawdown data) s = Some (nanmin dd) \<and>
         s \<notin> fst ` set (errors (calculate_max_drawdown data)) \<and>
         map_of (new_data (calculate_max_drawdown data)) s =
           Some (set_col ''Drawdown'' (Numeric dd)
                  (set_col ''Peak'' (Numeric (peak cum))
                    (set_col ''Cumulative Return'' (Numeric cum) df))) \<and>
         (valid dd = [] \<longrightarrow> nanmin dd = NaN) \<and>
         (valid dd \<noteq> [] \<longrightarrow>
            nanmin dd \<in> set (valid dd) \<and> (\<forall>d \<in> set (valid dd). fle (nanmin dd) d) \<and>
            fle (nanmin dd) (Fin 0)))"
proof -
  let ?cum = "cumulative_return (pct_change cs)"
  let ?dd = "drawdown ?cum"
  note op = max_drawdown_of_close[OF assms(3)]
  have rows: "\<forall>d \<in> set ?dd. isnan d \<or> fle d (Fin 0)"
    using drawdown_rows[of NInf ?cum] by (simp add: drawdown_def peak_def cummax_def)
  have pk: "\<forall>i. i < length ?cum \<and> \<not> isnan (?cum ! i) \<longrightarrow> fle (?cum ! i) (peak ?cum ! i)"
    using peak_rows[of NInf _ ?cum] by (simp add: peak_def cummax_def)
  have res: "result (calculate_max_drawdown data) s = Some (nanmin ?dd)"
    using result_run[OF assms(1,2), of "\<lambda>symbol. max_drawdown_one"]
    by (simp add: calculate_max_drawdown_def op)
  have err: "s \<notin> fst ` set (errors (calculate_max_drawdown data))"
    unfolding calculate_max_drawdown_def
    by (rule no_error_logged[OF assms(1,2)]) (simp add: op)
  have st: "map_of (new_data (calculate_max_drawdown data)) s =
           Some (set_col ''Drawdown'' (Numeric ?dd)
                  (set_col ''Peak'' (Numeric (peak ?cum))
                    (set_col ''Cumulative Return'' (Numeric ?cum) df)))"
    using stored_frame[OF assms(1,2), of "\<lambda>symbol. max_drawdown_one"]
    by (simp add: calculate_max_drawdown_def op)
  have none: "valid ?dd = [] \<longrightarrow> nanmin ?dd = NaN"
    using nanmin_cases[of ?dd] by auto
  have some: "valid ?dd \<noteq> [] \<longrightarrow>
      nanmin ?dd \<in> set (valid ?dd) \<and> (\<forall>d \<in> set (valid ?dd). fle (nanmin ?dd) d) \<and>
      fle (nanmin ?dd) (Fin 0)"
  proof
    assume ne: "valid ?dd \<noteq> []"
    with nanmin_cases[of ?dd]
    have m: "nanmin ?dd \<in> set (valid ?dd)" and l: "\<forall>d \<in> set (valid ?dd). fle (nanmin ?dd) d"
      by simp_all
    from m have "nanmin ?dd \<in> set ?dd" and "\<not> isnan (nanmin ?dd)" by (simp_all add: valid_def)
    with rows have "fle (nanmin ?dd) (Fin 0)" by blast
    with m l show "nanmin ?dd \<in> set (valid ?dd) \<and> (\<forall>d \<in> set (valid ?dd). fle (nanmin ?dd) d) \<and>
      fle (nanmin ?dd) (Fin 0)" by (intro conjI)
  qed
  show ?thesis
    unfolding Let_def by (intro conjI rows pk res err st none some)
qed

lemma single_close: "close_prices single_frame = Inr [Fin 100]"
  by (simp add: close_prices_def get_col_def single_frame_def)

lemma drawdown_single: "drawdown (cumulative_return (pct_change [Fin 100])) = [NaN]"
  by (simp add: pct_change_def ffill_def shift_def fsub_def cumulative_return_def
      cumprod_def drawdown_def peak_def cummax_def)

text \<open>
  C6 as stated (the result is always at most 0) fails for a series of one row: its only
  drawdown is undefined, \<^verbatim>\<open>calculate_max_drawdown\<close> returns NaN for the symbol, and NaN is
  not at most 0.
\<close>

theorem max_drawdown_nonpositive_counterexample:
  "result (calculate_max_drawdown [(''SSS'', single_frame)]) ''SSS'' = Some NaN \<and>
   \<not> fle NaN (Fin 0) \<and>
   drawdown (cumulative_return (pct_change [Fin 100])) = [NaN]"
  by (simp add: calculate_max_drawdown_def result_run_single max_drawdown_of_close[OF single_close]
      drawdown_single nanmin_def valid_def)

lemma vee_close: "close_prices vee_frame = Inr [Fin 1, Fin 2, Fin 1]"
  by (simp add: close_prices_def get_col_def vee_frame_def)

lemma drawdown_vee:
  "drawdown (cumulative_return (pct_change [Fin 1, Fin 2, Fin 1])) = [NaN, Fin 0, Fin (- 1)]"
  by (simp add: pct_change_def ffill_def shift_def fsub_def cumulative_return_def
      cumprod_def drawdown_def peak_def cummax_def fmax_def)

text \<open>
  After a first-row fall the peak is the fallen value itself, the first cumulative return
  being undefined and not 0: closes 100, 50, 100 have the maximum drawdown 0.
\<close>

lemma drawdown_after_first_fall:
  "nanmin (drawdown (cumulative_return (pct_change (closes [Some 100, Some 50, Some 100])))) = Fin 0"
  by (simp add: closes_def pct_change_def ffill_def shift_def fsub_def cumulative_return_def
      cumprod_def drawdown_def peak_def cummax_def fmax_def nanmin_def valid_def fmin_def)

theorem max_drawdown_nonpositive_witness:
  "distinct (map fst vee_data) \<and> (''VVV'', vee_frame) \<in> set vee_data \<and>
   close_prices vee_frame = Inr [Fin 1, Fin 2, Fin 1] \<and>
   valid (drawdown (cumulative_return (pct_change [Fin 1, Fin 2, Fin 1]))) \<noteq> [] \<and>
   result (calculate_max_drawdown vee_data) ''VVV'' = Some (Fin (- 1)) \<and>
   fle (Fin (- 1)) (Fin 0)"
proof -
  have d: "distinct (map fst vee_data)" and m: "(''VVV'', vee_frame) \<in> set vee_data"
    by (simp_all add: vee_data_def)
  have n: "nanmin [NaN, Fin 0, Fin (- 1)] = Fin (- 1)"
    by (simp add: nanmin_def valid_def fmin_def)
  note th = max_drawdown_nonpositive[OF d m vee_close, unfolded Let_def drawdown_vee n]
  have v: "valid [NaN, Fin 0, Fin (- 1)] \<noteq> []"
    by (simp add: valid_def)
  note rest = th[THEN conjunct2, THEN conjunct2]
  note res = rest[THEN conjunct1]
  note neg = rest[THEN conjunct2, THEN conjunct2, THEN conjunct2, THEN conjunct2, THEN mp, OF v,
      THEN conjunct2, THEN conjunct2]
  show ?thesis
    unfolding drawdown_vee by (intro conjI d m vee_close v res neg)
qed

section \<open>Sharpe ratio\<close>









section \<open>Cleaning\<close>

lemma select_rows_filter:
  "select_rows keep xs = map (\<lambda>i. xs ! i) (filter keep [0..<length xs])"
proof -
  have "zip [0..<length xs] xs = map (\<lambda>i. (i, xs ! i)) [0..<length xs]"
    by (rule nth_equalityI) simp_all
  then show ?thesis
    by (simp add: select_rows_def filter_map comp_def)
qed

lemma select_rows_all: "\<forall>i < length xs. keep i \<Longrightarrow> select_rows keep xs = xs"
proof -
  assume "\<forall>i < length xs. keep i"
  then have "filter keep [0..<length xs] = [0..<length xs]" by simp
  then show ?thesis by (simp add: select_rows_filter map_nth)
qed

lemma select_rows_kept:
  "x \<in> set (select_rows keep xs) \<Longrightarrow> \<exists>i < length xs. keep i \<and> xs ! i = x"
  by (auto simp: select_rows_filter)

lemma select_rows_dropped:
  assumes "distinct ls" and "i < length ls" and "\<not> keep i"
  shows "ls ! i \<notin> set (select_rows keep ls)"
proof
  assume "ls ! i \<in> set (select_rows keep ls)"
  from select_rows_kept[OF this] obtain j where j: "j < length ls" "keep j" "ls ! j = ls ! i"
    by blast
  with assms(1,2) have "j = i" by (simp add: nth_eq_iff_index_eq)
  with j assms(3) show False by simp
qed

lemma ffill_from_leading:
  "i < length xs \<Longrightarrow> \<forall>j \<le> i. na (xs ! j) \<Longrightarrow> ffill_from na None xs ! i = xs ! i"
proof (induction xs arbitrary: i)
  case Nil
  then show ?case by simp
next
  case (Cons x xs)
  from Cons.prems(2) have x: "na x" by auto
  show ?case
  proof (cases i)
    case 0
    with x show ?thesis by simp
  next
    case (Suc k)
    with Cons.prems have "k < length xs" and "\<forall>j \<le> k. na (xs ! j)" by auto
    with Cons.IH x Suc show ?thesis by simp
  qed
qed

lemma length_ffill_from: "length (ffill_from na prev xs) = length xs"
  by (induction xs arbitrary: prev) simp_all

lemma ffill_col_leading:
  "i < col_length c \<Longrightarrow> \<forall>j \<le> i. missing_at c j \<Longrightarrow> missing_at (ffill_col c) i"
proof (cases c)
  case (Numeric xs)
  assume "i < col_length c" and "\<forall>j \<le> i. missing_at c j"
  with Numeric have i: "i < length xs" and m: "\<forall>j \<le> i. isnan (xs ! j)" by simp_all
  from ffill_from_leading[OF i m] m i show ?thesis
    by (simp add: Numeric ffill_def length_ffill_from)
next
  case (Stamps ds)
  assume "i < col_length c" and "\<forall>j \<le> i. missing_at c j"
  with Stamps have i: "i < length ds" and m: "\<forall>j \<le> i. ds ! j = None" by simp_all
  from ffill_from_leading[of i ds "\<lambda>d. d = None"] i m show ?thesis
    by (simp add: Stamps ffill_def length_ffill_from)
qed

lemma complete_not_missing: "col_complete c \<Longrightarrow> \<not> missing_at c i"
  by (cases c) (auto simp: list_all_length)

lemma ffill_col_complete: "col_complete c \<Longrightarrow> ffill_col c = c"
  by (cases c) (simp_all add: ffill_id list_all_iff)

lemma select_col_all: "\<forall>i. keep i \<Longrightarrow> select_col keep c = c"
  by (cases c) (simp_all add: select_rows_all)

lemma select_ix_all: "\<forall>i. keep i \<Longrightarrow> select_ix keep x = x"
  by (cases x) (simp_all add: select_rows_all select_col_all)

lemma select_col_complete: "\<forall>i. keep i \<longrightarrow> \<not> missing_at c i \<Longrightarrow> col_complete (select_col keep c)"
proof (cases c)
  case (Numeric xs)
  assume k: "\<forall>i. keep i \<longrightarrow> \<not> missing_at c i"
  have "\<forall>x \<in> set (select_rows keep xs). \<not> isnan x"
  proof
    fix x assume "x \<in> set (select_rows keep xs)"
    from select_rows_kept[OF this] obtain i where i: "i < length xs" "keep i" "xs ! i = x"
      by blast
    from k i(2) have "\<not> missing_at c i" by simp
    with i(1,3) show "\<not> isnan x" by (simp add: Numeric)
  qed
  then show ?thesis by (simp add: Numeric list_all_iff)
next
  case (Stamps ds)
  assume k: "\<forall>i. keep i \<longrightarrow> \<not> missing_at c i"
  have "\<forall>x \<in> set (select_rows keep ds). x \<noteq> None"
  proof
    fix x assume "x \<in> set (select_rows keep ds)"
    from select_rows_kept[OF this] obtain i where i: "i < length ds" "keep i" "ds ! i = x"
      by blast
    from k i(2) have "\<not> missing_at c i" by simp
    with i(1,3) show "x \<noteq> None" by (simp add: Stamps)
  qed
  then show ?thesis by (simp add: Stamps list_all_iff)
qed

lemma no_gaps_dropna: "no_gaps (dropna df)"
proof -
  have "\<forall>(n, c) \<in> set (cols df). col_complete (select_col (complete_row (cols df)) c)"
  proof (clarify)
    fix n c assume nc: "(n, c) \<in> set (cols df)"
    have "\<forall>i. complete_row (cols df) i \<longrightarrow> \<not> missing_at c i"
      using nc by (auto simp: complete_row_def list_all_iff)
    then show "col_complete (select_col (complete_row (cols df)) c)"
      by (rule select_col_complete)
  qed
  then show ?thesis
    by (auto simp: no_gaps_def dropna_def list_all_iff)
qed

lemma dropna_no_gaps: "no_gaps df \<Longrightarrow> dropna df = df"
proof -
  assume g: "no_gaps df"
  then have all: "\<forall>i. complete_row (cols df) i"
    by (auto simp: no_gaps_def complete_row_def list_all_iff complete_not_missing)
  have "map (\<lambda>(n, c). (n, select_col (complete_row (cols df)) c)) (cols df) = cols df"
    using all by (simp add: select_col_all split_def)
  then show ?thesis
    using all by (simp add: dropna_def select_ix_all)
qed

lemma fillna_no_gaps: "no_gaps df \<Longrightarrow> fillna_ffill df = df"
proof -
  assume g: "no_gaps df"
  have "map (\<lambda>(n, c). (n, ffill_col c)) (cols df) = map (\<lambda>p. p) (cols df)"
    using g by (intro map_cong refl) (auto simp: no_gaps_def list_all_iff ffill_col_complete)
  then show ?thesis by (simp add: fillna_ffill_def)
qed

lemma clean_clean_frame:
  assumes "no_gaps df" and "get_col df ''Date'' = Inr (Stamps ds)"
  shows "clean_one conv df = finish df None"
proof -
  from assms(2) have m: "map_of (cols df) ''Date'' = Some (Stamps ds)"
    by (simp add: get_col_def split: option.splits)
  then have "set_col ''Date'' (Stamps ds) df = df"
    by (simp add: set_col_def update_triv)
  then show ?thesis
    using assms by (simp add: clean_one_def fillna_no_gaps dropna_no_gaps)
qed

lemma map_of_map_cols:
  "map_of (map (\<lambda>(n, c). (n, f c)) al) k = map_option f (map_of al k)"
  by (induction al) auto

lemma get_col_dropna:
  "get_col (dropna df) k =
     (case get_col df k of Inl e \<Rightarrow> Inl e | Inr c \<Rightarrow> Inr (select_col (complete_row (cols df)) c))"
  by (simp add: get_col_def dropna_def map_of_map_cols split: option.splits)

lemma get_col_fillna:
  "get_col (fillna_ffill df) k =
     (case get_col df k of Inl e \<Rightarrow> Inl e | Inr c \<Rightarrow> Inr (ffill_col c))"
  by (simp add: get_col_def fillna_ffill_def map_of_map_cols split: option.splits)

lemma to_datetime_stamps: "to_datetime conv d = Inr d' \<Longrightarrow> \<exists>ds. d' = Stamps ds"
  by (cases d) (auto split: sum.splits)

lemma stamps_kept: "\<exists>ds. select_col keep (ffill_col (Stamps ts)) = Stamps ds"
  by simp

lemma clean_one_cases:
  "(\<exists>e. clean_one conv df = raise df e) \<or>
   (\<exists>d ds. get_col df ''Date'' = Inr d \<and> to_datetime conv d = Inr (Stamps ds) \<and>
      clean_one conv df = finish (dropna (fillna_ffill (set_col ''Date'' (Stamps ds) df))) None)"
proof (cases "get_col df ''Date''")
  case (Inl e)
  then show ?thesis by (auto simp: clean_one_def)
next
  case (Inr d)
  show ?thesis
  proof (cases "to_datetime conv d")
    case (Inl e)
    with Inr show ?thesis by (auto simp: clean_one_def)
  next
    case r: (Inr d')
    with to_datetime_stamps[OF r] Inr show ?thesis by (auto simp: clean_one_def)
  qed
qed

lemma clean_one_idem:
  "frame_after (clean_one conv (frame_after (clean_one conv df))) = frame_after (clean_one conv df)"
proof -
  from clean_one_cases[of conv df] show ?thesis
  proof (elim disjE exE conjE)
    fix e assume "clean_one conv df = raise df e"
    then show ?thesis by simp
  next
    fix d ds
    let ?F = "dropna (fillna_ffill (set_col ''Date'' (Stamps ds) df))"
    assume c: "clean_one conv df = finish ?F None"
    have g: "no_gaps ?F" by (rule no_gaps_dropna)
    have "\<exists>ts. get_col ?F ''Date'' = Inr (Stamps ts)"
      by (simp add: get_col_dropna get_col_fillna get_set_same)
    then obtain ts where "get_col ?F ''Date'' = Inr (Stamps ts)" ..
    from clean_clean_frame[OF g this, of conv] c show ?thesis by simp
  qed
qed

text \<open>
  C8. Cleaning is idempotent: cleaning the cleaned data again changes nothing, for every
  stored data and whatever the library makes of a non-datetime \<^verbatim>\<open>Date\<close> column. And a frame
  that is already clean (no value missing in any column, its \<^verbatim>\<open>Date\<close> column, if it has
  one, of datetimes, as in every frame that \<^verbatim>\<open>fetch_data\<close> stores) is left exactly as it
  is.
\<close>

theorem cleaning_idempotent:
  "clean_data conv (clean_data conv data) = clean_data conv data \<and>
   (no_gaps df \<and> \<not> is_numeric (get_col df ''Date'') \<longrightarrow> frame_after (clean_one conv df) = df)"
proof -
  have a: "clean_data conv (clean_data conv data) = clean_data conv data"
    by (simp add: clean_data_def new_data_run comp_def split_def clean_one_idem)
  have b: "no_gaps df \<and> \<not> is_numeric (get_col df ''Date'') \<longrightarrow> frame_after (clean_one conv df) = df"
  proof
    assume h: "no_gaps df \<and> \<not> is_numeric (get_col df ''Date'')"
    show "frame_after (clean_one conv df) = df"
    proof (cases "get_col df ''Date''")
      case (Inl e)
      then show ?thesis by (simp add: clean_one_def)
    next
      case (Inr d)
      with h obtain ds where "d = Stamps ds" by (cases d) auto
      with Inr h clean_clean_frame[of df ds conv] show ?thesis by simp
    qed
  qed
  from a b show ?thesis ..
qed

lemma clean_sample: "no_gaps sample_frame \<and> \<not> is_numeric (get_col sample_frame ''Date'')"
  by (simp add: no_gaps_def sample_frame_def get_col_def)

theorem cleaning_idempotent_witness:
  "no_gaps sample_frame \<and> \<not> is_numeric (get_col sample_frame ''Date'') \<and>
   frame_after (clean_one (\<lambda>x. Inl TypeError) sample_frame) = sample_frame \<and>
   clean_data (\<lambda>x. Inl TypeError) (clean_data (\<lambda>x. Inl TypeError) [(''CCC'', gap_frame)]) =
     clean_data (\<lambda>x. Inl TypeError) [(''CCC'', gap_frame)]"
proof -
  note th = cleaning_idempotent[of "\<lambda>x. Inl TypeError" "[(''CCC'', gap_frame)]" sample_frame]
  from th[THEN conjunct2, THEN mp, OF clean_sample] th[THEN conjunct1] clean_sample
  show ?thesis by (intro conjI) simp_all
qed

lemma leading_gap_row:
  assumes "(n, c) \<in> set (cols df)" and "i < col_length c" and "\<forall>j \<le> i. missing_at c j"
  shows "\<not> complete_row (cols (fillna_ffill df)) i"
proof -
  from assms(1) have "(n, ffill_col c) \<in> set (cols (fillna_ffill df))"
    by (force simp: fillna_ffill_def)
  moreover have "missing_at (ffill_col c) i"
    using assms(2,3) by (rule ffill_col_leading)
  ultimately show ?thesis
    by (auto simp: complete_row_def list_all_iff)
qed

lemma complete_after_fill:
  "complete_row (cols (fillna_ffill df)) = (\<lambda>i. \<forall>(n, c) \<in> set (cols df). \<not> missing_at (ffill_col c) i)"
  by (rule ext) (auto simp: complete_row_def fillna_ffill_def list_all_iff)

lemma fill_then_drop:
  "dropna (fillna_ffill df) =
     \<lparr>ix = select_ix (complete_row (cols (fillna_ffill df))) (ix df),
      cols = map (\<lambda>(n, c). (n, select_col (complete_row (cols (fillna_ffill df))) (ffill_col c)))
               (cols df)\<rparr>"
  by (simp add: dropna_def fillna_ffill_def comp_def split_def)

text \<open>
  C10. For every symbol whose cleaning goes through, \<^verbatim>\<open>clean_data\<close> stores the frame in
  which every column, not only \<^verbatim>\<open>Close\<close>, is forward-filled and only the rows are kept, in
  the index and in every column, in which no column is missing a value after the fill; no
  value is missing in the stored frame and no error is logged for the symbol. So a row in
  which some column (a volume, say) has had no valid value yet is not kept, whatever its
  close is, and its label is no longer in the index of the stored frame.
\<close>

theorem clean_fills_and_drops_all_columns:
  assumes "distinct (map fst data)" and "(s, df) \<in> set data"
    and "get_col df ''Date'' = Inr d" and "to_datetime conv d = Inr d'"
  shows
    "(let df1 = set_col ''Date'' d' df;
          keep = (\<lambda>i. \<forall>(n, c) \<in> set (cols df1). \<not> missing_at (ffill_col c) i);
          cleaned = \<lparr>ix = select_ix keep (ix df),
                     cols = map (\<lambda>(n, c). (n, select_col keep (ffill_col c))) (cols df1)\<rparr>
      in map_of (clean_data conv data) s = Some cleaned \<and>
         s \<notin> fst ` set (errors (run (\<lambda>symbol. clean_one conv) data)) \<and>
         no_gaps cleaned \<and>
         (\<forall>n c i. (n, c) \<in> set (cols df1) \<and> i < col_length c \<and> (\<forall>j \<le> i. missing_at c j) \<longrightarrow>
            \<not> keep i) \<and>
         (\<forall>ls i. ix df = RangeIx ls \<and> distinct ls \<and> i < length ls \<and> \<not> keep i \<longrightarrow>
            ix cleaned = RangeIx (select_rows keep ls) \<and>
            ls ! i \<notin> set (select_rows keep ls)))"
proof -
  let ?df1 = "set_col ''Date'' d' df"
  let ?keep = "\<lambda>i. \<forall>(n, c) \<in> set (cols ?df1). \<not> missing_at (ffill_col c) i"
  let ?cleaned = "\<lparr>ix = select_ix ?keep (ix df),
                    cols = map (\<lambda>(n, c). (n, select_col ?keep (ffill_col c))) (cols ?df1)\<rparr>"
  have k: "complete_row (cols (fillna_ffill ?df1)) = ?keep"
    by (rule complete_after_fill)
  have cl: "dropna (fillna_ffill ?df1) = ?cleaned"
    unfolding fill_then_drop k by (simp add: set_col_def)
  have op: "clean_one conv df = finish ?cleaned None"
    using assms(3,4) cl by (simp add: clean_one_def)
  have a: "map_of (clean_data conv data) s = Some ?cleaned"
    using stored_frame[OF assms(1,2), of "\<lambda>symbol. clean_one conv"]
    by (simp add: clean_data_def op)
  have b: "s \<notin> fst ` set (errors (run (\<lambda>symbol. clean_one conv) data))"
    by (rule no_error_logged[OF assms(1,2)]) (simp add: op)
  have c: "no_gaps ?cleaned"
    using no_gaps_dropna[of "fillna_ffill ?df1"] by (simp only: cl)
  have d: "\<forall>n c i. (n, c) \<in> set (cols ?df1) \<and> i < col_length c \<and> (\<forall>j \<le> i. missing_at c j) \<longrightarrow>
            \<not> ?keep i"
    using leading_gap_row[of _ _ ?df1] unfolding k by blast
  have e: "\<forall>ls i. ix df = RangeIx ls \<and> distinct ls \<and> i < length ls \<and> \<not> ?keep i \<longrightarrow>
            ix ?cleaned = RangeIx (select_rows ?keep ls) \<and>
            ls ! i \<notin> set (select_rows ?keep ls)"
  proof (intro allI impI)
    fix ls i
    assume h: "ix df = RangeIx ls \<and> distinct ls \<and> i < length ls \<and> \<not> ?keep i"
    then have "ls ! i \<notin> set (select_rows ?keep ls)"
      by (intro select_rows_dropped) simp_all
    with h show "ix ?cleaned = RangeIx (select_rows ?keep ls) \<and>
            ls ! i \<notin> set (select_rows ?keep ls)" by simp
  qed
  show ?thesis
    unfolding Let_def by (intro conjI a b c d e)
qed

lemma gap_frame_date: "get_col gap_frame ''Date'' = Inr (Stamps [Some 1, Some 2, Some 3])"
  by (simp add: gap_frame_def get_col_def)

lemma gap_frame_filled:
  "fillna_ffill (set_col ''Date'' (Stamps [Some 1, Some 2, Some 3]) gap_frame) =
     \<lparr>ix = RangeIx [0, 1, 2],
      cols = [(''Date'', Stamps [Some 1, Some 2, Some 3]),
              (''Close'', Numeric [Fin 100, Fin 110, Fin 121]),
              (''Volume'', Numeric [NaN, Fin 5, Fin 5])]\<rparr>"
  by (simp add: gap_frame_def set_col_def fillna_ffill_def ffill_def)

lemma gap_frame_cleaned:
  "dropna (fillna_ffill (set_col ''Date'' (Stamps [Some 1, Some 2, Some 3]) gap_frame)) =
     \<lparr>ix = RangeIx [1, 2],
      cols = [(''Date'', Stamps [Some 2, Some 3]),
              (''Close'', Numeric [Fin 110, Fin 121]),
              (''Volume'', Numeric [Fin 5, Fin 5])]\<rparr>"
  unfolding gap_frame_filled by (simp add: dropna_def complete_row_def select_rows_def)

theorem clean_fills_and_drops_all_columns_witness:
  "distinct (map fst gap_data) \<and> (''CCC'', gap_frame) \<in> set gap_data \<and>
   get_col gap_frame ''Date'' = Inr (Stamps [Some 1, Some 2, Some 3]) \<and>
   to_datetime (\<lambda>x. Inl TypeError) (Stamps [Some 1, Some 2, Some 3]) =
     Inr (Stamps [Some 1, Some 2, Some 3]) \<and>
   map_of (clean_data (\<lambda>x. Inl TypeError) gap_data) ''CCC'' =
     Some \<lparr>ix = RangeIx [1, 2],
           cols = [(''Date'', Stamps [Some 2, Some 3]),
                   (''Close'', Numeric [Fin 110, Fin 121]),
                   (''Volume'', Numeric [Fin 5, Fin 5])]\<rparr>"
proof -
  have d: "distinct (map fst gap_data)" and m: "(''CCC'', gap_frame) \<in> set gap_data"
    by (simp_all add: gap_data_def)
  have t: "to_datetime (\<lambda>x. Inl TypeError) (Stamps [Some 1, Some 2, Some 3]) =
     Inr (Stamps [Some 1, Some 2, Some 3])"
    by simp
  let ?df1 = "set_col ''Date'' (Stamps [Some 1, Some 2, Some 3]) gap_frame"
  have same: "\<lparr>ix = select_ix (\<lambda>i. \<forall>(n, c) \<in> set (cols ?df1). \<not> missing_at (ffill_col c) i)
                     (ix gap_frame),
            cols = map (\<lambda>(n, c). (n, select_col
                     (\<lambda>i. \<forall>(n, c) \<in> set (cols ?df1). \<not> missing_at (ffill_col c) i)
                     (ffill_col c))) (cols ?df1)\<rparr> =
      \<lparr>ix = RangeIx [1, 2],
       cols = [(''Date'', Stamps [Some 2, Some 3]),
               (''Close'', Numeric [Fin 110, Fin 121]),
               (''Volume'', Numeric [Fin 5, Fin 5])]\<rparr>"
    using gap_frame_cleaned
    unfolding fill_then_drop complete_after_fill by (simp add: set_col_def)
  note th = clean_fills_and_drops_all_columns[OF d m gap_frame_date t, unfolded Let_def same]
  show ?thesis
    by (intro conjI d m gap_frame_date t th[THEN conjunct1])
qed

section \<open>Decomposition that fails\<close>

lemma no_date_after_set_index:
  "get_col \<lparr>ix = NamedIx ''Date'' d, cols = AList.delete ''Date'' al\<rparr> ''Date'' = Inl KeyError"
  by (simp add: get_col_def delete_conv)

lemma close_after_set_index:
  "get_col \<lparr>ix = NamedIx ''Date'' d, cols = AList.delete ''Date'' (cols df)\<rparr> ''Close'' =
   get_col df ''Close''"
  by (simp add: get_col_def delete_conv)

text \<open>
  C9. When the seasonal decomposition of a symbol's series, or the plot after it, raises,
  \<^verbatim>\<open>decompose_trends\<close> leaves the symbol's stored frame as \<^verbatim>\<open>set_index\<close> made it: the
  \<^verbatim>\<open>Date\<close> values are the index and there is no \<^verbatim>\<open>Date\<close> column any more (nothing puts it
  back), no decomposition is returned for the symbol, and what reads the \<^verbatim>\<open>Date\<close> column
  of that frame afterwards raises: cleaning and a second decomposition raise KeyError, the
  cumulative-return plot raises too.
\<close>

theorem decompose_failure_keeps_date_index:
  assumes "get_col df ''Date'' = Inr d" and "get_col df ''Close'' = Inr c"
    and "decomp (NamedIx ''Date'' d) c = Inl e \<or>
         (\<exists>r. decomp (NamedIx ''Date'' d) c = Inr r \<and> draw s r = Some e)"
    and "distinct (map fst data)" and "(s, df) \<in> set data"
  shows
    "(let out = decompose_one decomp draw s df;
          left = \<lparr>ix = NamedIx ''Date'' d, cols = AList.delete ''Date'' (cols df)\<rparr>
      in raised out = Some e \<and> stored out = None \<and> frame_after out = left \<and>
         map_of (new_data (decompose_trends decomp draw data)) s = Some left \<and>
         result (decompose_trends decomp draw data) s = None \<and>
         get_col left ''Date'' = Inl KeyError \<and>
         clean_one conv left = raise left KeyError \<and>
         decompose_one decomp draw s left = raise left KeyError \<and>
         raised (plot_cumulative_returns_one figure paint s left) \<noteq> None)"
proof -
  let ?left = "\<lparr>ix = NamedIx ''Date'' d, cols = AList.delete ''Date'' (cols df)\<rparr>"
  from assms(1) have m: "map_of (cols df) ''Date'' = Some d"
    by (simp add: get_col_def split: option.splits)
  then have si: "set_index ''Date'' df = Inr ?left"
    by (simp add: set_index_def)
  have cl: "get_col ?left ''Close'' = Inr c"
    using assms(2) by (simp add: close_after_set_index)
  have out: "decompose_one decomp draw s df = raise ?left e"
    using assms(3) by (auto simp: decompose_one_def si cl)
  have nd: "get_col ?left ''Date'' = Inl KeyError"
    by (rule no_date_after_set_index)
  have again: "set_index ''Date'' ?left = Inl KeyError"
    by (simp add: set_index_def delete_conv)
  have a: "raised (decompose_one decomp draw s df) = Some e"
    and b: "stored (decompose_one decomp draw s df) = None"
    and f: "frame_after (decompose_one decomp draw s df) = ?left"
    by (simp_all add: out)
  have st: "map_of (new_data (decompose_trends decomp draw data)) s = Some ?left"
    using stored_frame[OF assms(4,5), of "decompose_one decomp draw"]
    by (simp add: decompose_trends_def f)
  have rs: "result (decompose_trends decomp draw data) s = None"
    using result_run[OF assms(4,5), of "decompose_one decomp draw"]
    by (simp add: decompose_trends_def b)
  have cln: "clean_one conv ?left = raise ?left KeyError"
    by (simp add: clean_one_def nd)
  have dec: "decompose_one decomp draw s ?left = raise ?left KeyError"
    by (simp add: decompose_one_def again)
  have plt: "raised (plot_cumulative_returns_one figure paint s ?left) \<noteq> None"
  proof (cases "close_prices ?left")
    case (Inl e')
    then show ?thesis by (simp add: plot_cumulative_returns_one_def)
  next
    case (Inr cs)
    have "get_col (set_col ''Cumulative Return'' (Numeric (cumulative_return (pct_change cs)))
            (set_col ''Daily Return'' (Numeric (pct_change cs)) ?left)) ''Date'' = Inl KeyError"
      by (simp add: get_set_other nd)
    with Inr show ?thesis
      by (cases "figure s") (simp_all add: plot_cumulative_returns_one_def Let_def)
  qed
  show ?thesis
    unfolding Let_def by (intro conjI a b f st rs nd cln dec plt)
qed

lemma sample_date: "get_col sample_frame ''Date'' = Inr (Stamps [Some 1, Some 2, Some 3])"
  by (simp add: sample_frame_def get_col_def)

lemma sample_close: "get_col sample_frame ''Close'' = Inr (Numeric [Fin 100, Fin 110, Fin 121])"
  by (simp add: sample_frame_def get_col_def)

lemma sample_too_short:
  "short_decomp (NamedIx ''Date'' (Stamps [Some 1, Some 2, Some 3]))
     (Numeric [Fin 100, Fin 110, Fin 121]) = Inl ValueError"
  by (simp add: short_decomp_def)

lemma sample_without_date:
  "AList.delete ''Date'' (cols sample_frame) = [(''Close'', Numeric [Fin 100, Fin 110, Fin 121])]"
  by (simp add: sample_frame_def)

theorem decompose_failure_keeps_date_index_witness:
  "get_col sample_frame ''Date'' = Inr (Stamps [Some 1, Some 2, Some 3]) \<and>
   get_col sample_frame ''Close'' = Inr (Numeric [Fin 100, Fin 110, Fin 121]) \<and>
   short_decomp (NamedIx ''Date'' (Stamps [Some 1, Some 2, Some 3]))
     (Numeric [Fin 100, Fin 110, Fin 121]) = Inl ValueError \<and>
   distinct (map fst sample_data) \<and> (''BBB'', sample_frame) \<in> set sample_data \<and>
   raised (decompose_one short_decomp (\<lambda>s r. None) ''BBB'' sample_frame) = Some ValueError \<and>
   map_of (new_data (decompose_trends short_decomp (\<lambda>s r. None) sample_data)) ''BBB'' =
     Some \<lparr>ix = NamedIx ''Date'' (Stamps [Some 1, Some 2, Some 3]),
           cols = [(''Close'', Numeric [Fin 100, Fin 110, Fin 121])]\<rparr> \<and>
   get_col \<lparr>ix = NamedIx ''Date'' (Stamps [Some 1, Some 2, Some 3]),
            cols = [(''Close'', Numeric [Fin 100, Fin 110, Fin 121])]\<rparr> ''Date'' = Inl KeyError"
proof -
  have d: "distinct (map fst sample_data)" and b: "(''BBB'', sample_frame) \<in> set sample_data"
    by (simp_all add: sample_data_def)
  have f: "short_decomp (NamedIx ''Date'' (Stamps [Some 1, Some 2, Some 3]))
        (Numeric [Fin 100, Fin 110, Fin 121]) = Inl ValueError \<or>
      (\<exists>r. short_decomp (NamedIx ''Date'' (Stamps [Some 1, Some 2, Some 3]))
        (Numeric [Fin 100, Fin 110, Fin 121]) = Inr r \<and> (\<lambda>s r. None) ''BBB'' r = Some ValueError)"
    using sample_too_short by (rule disjI1)
  note th = decompose_failure_keeps_date_index[where decomp = short_decomp
      and draw = "\<lambda>s r. None" and s = "''BBB''" and df = sample_frame and data = sample_data
      and e = ValueError, OF sample_date sample_close f d b,
      unfolded Let_def sample_without_date]
  note rest = th[THEN conjunct2, THEN conjunct2, THEN conjunct2]
  show ?thesis
    by (intro conjI sample_date sample_close sample_too_short d b th[THEN conjunct1]
        rest[THEN conjunct1] rest[THEN conjunct2, THEN conjunct2, THEN conjunct1])
qed

end
